theory Spec2Isabelle
  imports Main "HOL-Library.Word" "HOL-Library.Sublist"
begin

section \<open>Status codes\<close>

text \<open>
  \<^verbatim>\<open>type StatusCode byte\<close>: an 8-bit value. The seventeen constants are numbered by
  \<^verbatim>\<open>iota\<close> in declaration order, from 0.
\<close>

type_synonym StatusCode = "8 word"

definition Success :: StatusCode where "Success = 0"
definition Warning :: StatusCode where "Warning = 1"
definition ErrNoMatch :: StatusCode where "ErrNoMatch = 2"
definition ErrAmbiguous :: StatusCode where "ErrAmbiguous = 3"
definition ErrIncomplete :: StatusCode where "ErrIncomplete = 4"
definition ErrExeedArgcMax :: StatusCode where "ErrExeedArgcMax = 5"
definition ErrNothingTodo :: StatusCode where "ErrNothingTodo = 6"
definition CompleteFullMatch :: StatusCode where "CompleteFullMatch = 7"
definition CompleteMatch :: StatusCode where "CompleteMatch = 8"
definition CompleteListMatch :: StatusCode where "CompleteListMatch = 9"
definition SuccessDaemon :: StatusCode where "SuccessDaemon = 10"
definition ErrNoFile :: StatusCode where "ErrNoFile = 11"
definition Suspend :: StatusCode where "Suspend = 12"
definition WarningConfigFailed :: StatusCode where "WarningConfigFailed = 13"
definition NotMyInstance :: StatusCode where "NotMyInstance = 14"
definition NoLevelUp :: StatusCode where "NoLevelUp = 15"
definition ErrNoDaemon :: StatusCode where "ErrNoDaemon = 16"

text \<open>\<^verbatim>\<open>func (sc StatusCode) String() string\<close>: the switch, case by case, with its default.\<close>

definition String :: "StatusCode \<Rightarrow> string" where
  "String sc =
    (if sc = Success then ''CMD_SUCCESS''
     else if sc = Warning then ''CMD_WARNING''
     else if sc = ErrNoMatch then ''CMD_ERR_NO_MATCH''
     else if sc = ErrAmbiguous then ''CMD_ERR_AMBIGUOUS''
     else if sc = ErrIncomplete then ''CMD_ERR_INCOMPLETE''
     else if sc = ErrExeedArgcMax then ''CMD_ERR_EXEED_ARGC_MAX''
     else if sc = ErrNothingTodo then ''CMD_ERR_NOTHING_TODO''
     else if sc = CompleteFullMatch then ''CMD_COMPLETE_FULL_MATCH''
     else if sc = CompleteMatch then ''CMD_COMPLETE_MATCH''
     else if sc = CompleteListMatch then ''CMD_COMPLETE_LIST_MATCH''
     else if sc = SuccessDaemon then ''CMD_SUCCESS_DAEMON''
     else if sc = ErrNoFile then ''CMD_ERR_NO_FILE''
     else if sc = Suspend then ''CMD_SUSPEND''
     else if sc = WarningConfigFailed then ''CMD_WARNING_CONFIG_FAILED''
     else if sc = NotMyInstance then ''CMD_NOT_MY_INSTANCE''
     else if sc = NoLevelUp then ''CMD_NO_LEVEL_UP''
     else if sc = ErrNoDaemon then ''CMD_ERR_NO_DAEMON''
     else ''unknown status code'')"

section \<open>Go values the package works with\<close>

text \<open>
  A Go \<^verbatim>\<open>string\<close> and a \<^verbatim>\<open>[]byte\<close> are both sequences of 8-bit bytes, and so is a HOL
  \<^typ>\<open>string\<close>: both are modelled by it, which makes the conversions
  \<^verbatim>\<open>string(b)\<close> and \<^verbatim>\<open>[]byte(s)\<close> the identity. A \<^verbatim>\<open>nil\<close> slice and an empty one are both
  \<^term>\<open>[] :: string\<close>.

  An \<^verbatim>\<open>error\<close> is kept as the call that built it: \<^verbatim>\<open>errors.New(msg)\<close>, \<^verbatim>\<open>fmt.Errorf(format,
  operands...)\<close> with its operands in order (a string or byte-slice operand, or an error
  operand, which \<^verbatim>\<open>%w\<close> wraps), \<^verbatim>\<open>errors.Join\<close> of the non-nil errors it was given, or a
  run-time panic. A \<^verbatim>\<open>nil\<close> error is \<^term>\<open>None\<close>.
\<close>

datatype error =
    New string
  | Errorf string "operand list"
  | Join "error list"
  | Panic string
and operand = Str string | Err error

text \<open>\<^verbatim>\<open>errors.Join(errs...)\<close> drops the nil errors and returns nil when none is left.\<close>

definition errors_Join :: "error option list \<Rightarrow> error option" where
  "errors_Join errs =
    (let es = List.map_filter (\<lambda>e. e) errs in if es = [] then None else Some (Join es))"

text \<open>
  \<^verbatim>\<open>errors.Is(e, target)\<close>: \<^verbatim>\<open>e\<close> is the target, or one of the errors it wraps (the error
  operands of an \<^verbatim>\<open>Errorf\<close>, the members of a \<^verbatim>\<open>Join\<close>) is.
\<close>

fun errors_Is :: "error \<Rightarrow> error \<Rightarrow> bool"
  and operand_Is :: "operand \<Rightarrow> error \<Rightarrow> bool" where
  "errors_Is (New m) target = (New m = target)"
| "errors_Is (Panic m) target = (Panic m = target)"
| "errors_Is (Errorf f ops) target =
     (Errorf f ops = target \<or> list_ex (\<lambda>x. operand_Is x target) ops)"
| "errors_Is (Join es) target =
     (Join es = target \<or> list_ex (\<lambda>e. errors_Is e target) es)"
| "operand_Is (Str s) target = False"
| "operand_Is (Err e) target = errors_Is e target"

definition ErrConnNotEstab :: error where
  "ErrConnNotEstab = New ''connection is not established for socket''"

definition ErrNotAcceptableStatusCode :: error where
  "ErrNotAcceptableStatusCode = New ''not acceptable status code''"

text \<open>The error of a method call through a nil \<^verbatim>\<open>net.Conn\<close>.\<close>

definition nilDereference :: error where
  "nilDereference = Panic ''invalid memory address or nil pointer dereference''"

text \<open>\<^verbatim>\<open>io.EOF\<close>, what a read finds when the peer has nothing more to send.\<close>

definition io_EOF :: error where
  "io_EOF = New ''EOF''"

section \<open>The transport behind a Connection (\<^verbatim>\<open>net.Conn\<close>)\<close>

text \<open>
  The socket is outside the package. It is modelled by what its peer will do: the data
  that will arrive (each \<^term>\<open>Chunk\<close> a run of bytes that becomes readable at once, each
  \<^term>\<open>Broken\<close> a read that ends with that error), the results of the \<^verbatim>\<open>SetDeadline\<close> and
  \<^verbatim>\<open>Write\<close> calls to come (a list that has run out means success), and the result of
  \<^verbatim>\<open>Close\<close>. It also records what was done to it: the deadline last set, the argument of
  every \<^verbatim>\<open>Write\<close> call in order, and the number of \<^verbatim>\<open>Read\<close> calls.
\<close>

datatype arrival = Chunk string | Broken error

record transport =
  inbox :: "arrival list"
  deadlineErrs :: "error option list"
  writeErrs :: "error option list"
  closeErr :: "error option"
  deadline :: "int option"
  written :: "string list"
  readCalls :: nat

text \<open>
  \<^verbatim>\<open>conn.Read(buf)\<close> with a buffer of \<open>n\<close> bytes: at most \<open>n\<close> bytes of the chunk at the head
  of the inbox, the rest of that chunk staying for the next call; the error of a broken
  read; \<^verbatim>\<open>io.EOF\<close> once nothing is left.
\<close>

definition conn_Read :: "nat \<Rightarrow> transport \<Rightarrow> (error + string) \<times> transport" where
  "conn_Read n t =
    (case inbox t of
       [] \<Rightarrow> (Inl io_EOF, t\<lparr>readCalls := Suc (readCalls t)\<rparr>)
     | Broken e # rest \<Rightarrow> (Inl e, t\<lparr>inbox := rest, readCalls := Suc (readCalls t)\<rparr>)
     | Chunk bs # rest \<Rightarrow>
         if length bs \<le> n
         then (Inr bs, t\<lparr>inbox := rest, readCalls := Suc (readCalls t)\<rparr>)
         else (Inr (take n bs),
               t\<lparr>inbox := Chunk (drop n bs) # rest, readCalls := Suc (readCalls t)\<rparr>))"

text \<open>\<^verbatim>\<open>conn.Write(b)\<close>: the call is recorded, its result is the next scripted one.\<close>

definition conn_Write :: "string \<Rightarrow> transport \<Rightarrow> (int \<times> error option) \<times> transport" where
  "conn_Write b t =
    (case writeErrs t of
       [] \<Rightarrow> ((int (length b), None), t\<lparr>written := written t @ [b]\<rparr>)
     | None # rest \<Rightarrow>
         ((int (length b), None), t\<lparr>writeErrs := rest, written := written t @ [b]\<rparr>)
     | Some e # rest \<Rightarrow> ((0, Some e), t\<lparr>writeErrs := rest, written := written t @ [b]\<rparr>))"

definition conn_SetDeadline :: "int \<Rightarrow> transport \<Rightarrow> error option \<times> transport" where
  "conn_SetDeadline d t =
    (case deadlineErrs t of
       [] \<Rightarrow> (None, t\<lparr>deadline := Some d\<rparr>)
     | None # rest \<Rightarrow> (None, t\<lparr>deadlineErrs := rest, deadline := Some d\<rparr>)
     | Some e # rest \<Rightarrow> (Some e, t\<lparr>deadlineErrs := rest\<rparr>))"

definition conn_Close :: "transport \<Rightarrow> error option" where
  "conn_Close t = closeErr t"

text \<open>
  \<^verbatim>\<open>bytes.Index(s, sep)\<close>: the index of the first place where \<open>sep\<close> occurs in \<open>s\<close>, or
  \<open>-1\<close> when there is none.
\<close>

fun bytes_Index :: "string \<Rightarrow> string \<Rightarrow> int" where
  "bytes_Index [] sep = (if sep = [] then 0 else -1)"
| "bytes_Index (b # s) sep =
     (if prefix sep (b # s) then 0
      else (let i = bytes_Index s sep in if i < 0 then -1 else i + 1))"

section \<open>Connection: the framing protocol\<close>

definition terminationMarker :: string where
  "terminationMarker = [CHR 0x00, CHR 0x00, CHR 0x00]"

definition techDataTotalLen :: int where
  "techDataTotalLen = 4"

definition bufSize :: nat where
  "bufSize = 4096"

text \<open>\<^verbatim>\<open>DefaultTimeout = 1 * time.Second\<close>, in nanoseconds.\<close>

definition DefaultTimeout :: int where
  "DefaultTimeout = 1000000000"

record socketResponse =
  plainText :: string
  statusCode :: StatusCode
  err :: "error option"

text \<open>\<^verbatim>\<open>conn\<close> is \<^term>\<open>None\<close> for the nil interface value: the Connection is not connected.\<close>

record Connection =
  socketPath :: string
  conn :: "transport option"

text \<open>
  What Execute reads of its \<^verbatim>\<open>context.Context\<close>: the deadline, if the context has one,
  and the clock \<^verbatim>\<open>time.Now()\<close> reads while the call runs.
\<close>

record ctx =
  ctxDeadline :: "int option"
  now :: int

definition NewConnection :: "string \<Rightarrow> Connection" where
  "NewConnection path = \<lparr>socketPath = path, conn = None\<rparr>"

text \<open>
  Dialling is outside the package too: \<open>listening\<close> says, for each socket path, what a dial
  to it gives (an error, or a fresh transport), and \<open>dialed\<close> records every path dialled,
  in order.
\<close>

record network =
  listening :: "string \<Rightarrow> error + transport"
  dialed :: "string list"

definition DialContext ::
  "ctx \<Rightarrow> string \<Rightarrow> network \<Rightarrow> (error + transport) \<times> network" where
  "DialContext c path nw = (listening nw path, nw\<lparr>dialed := dialed nw @ [path]\<rparr>)"

definition Connect :: "ctx \<Rightarrow> Connection \<Rightarrow> network \<Rightarrow> error option \<times> Connection \<times> network" where
  "Connect cx c nw =
    (case DialContext cx (socketPath c) nw of
       (Inl e, nw') \<Rightarrow> (Some e, c, nw')
     | (Inr t, nw') \<Rightarrow> (None, c\<lparr>conn := Some t\<rparr>, nw'))"

text \<open>
  \<^verbatim>\<open>Close\<close>: nothing to do on a nil \<^verbatim>\<open>conn\<close>; otherwise the deferred assignment sets
  \<^verbatim>\<open>conn\<close> to nil on both ways out.
\<close>

definition Close :: "Connection \<Rightarrow> error option \<times> Connection" where
  "Close c =
    (case conn c of
       None \<Rightarrow> (None, c)
     | Some t \<Rightarrow>
         (case conn_Close t of
            Some e \<Rightarrow>
              (Some (Errorf ''socket connection close %s: %w'' [Str (socketPath c), Err e]),
               c\<lparr>conn := None\<rparr>)
          | None \<Rightarrow> (None, c\<lparr>conn := None\<rparr>)))"

text \<open>
  \<^verbatim>\<open>setDeadline\<close> and \<^verbatim>\<open>writeCommand\<close> call a method of \<^verbatim>\<open>c.conn\<close> without a check of
  their own: on a nil \<^verbatim>\<open>conn\<close> that is a panic.
\<close>

definition setDeadline :: "ctx \<Rightarrow> Connection \<Rightarrow> error option \<times> Connection" where
  "setDeadline cx c =
    (let d = (case ctxDeadline cx of Some d \<Rightarrow> d | None \<Rightarrow> now cx + DefaultTimeout)
     in case conn c of
          None \<Rightarrow> (Some nilDereference, c)
        | Some t \<Rightarrow> (case conn_SetDeadline d t of (r, t') \<Rightarrow> (r, c\<lparr>conn := Some t'\<rparr>)))"

definition writeCommand :: "string \<Rightarrow> Connection \<Rightarrow> (int \<times> error option) \<times> Connection" where
  "writeCommand cmd c =
    (case conn c of
       None \<Rightarrow> ((0, Some nilDereference), c)
     | Some t \<Rightarrow>
         (case conn_Write (cmd @ [CHR 0x00]) t of (r, t') \<Rightarrow> (r, c\<lparr>conn := Some t'\<rparr>)))"

text \<open>
  The loop of \<^verbatim>\<open>readResponse\<close>, with the bytes accumulated so far as its second
  argument. Each round reads into the 4096-byte buffer; a read error ends the loop with
  what was accumulated; otherwise the chunk is appended, the whole buffer is searched for
  the marker, and the loop ends when the marker's first occurrence starts exactly four
  bytes before the end.
\<close>

fun arrival_size :: "arrival \<Rightarrow> nat" where
  "arrival_size (Chunk bs) = Suc (length bs)"
| "arrival_size (Broken e) = 1"

function readLoop :: "transport \<Rightarrow> string \<Rightarrow> socketResponse \<times> transport" where
  "readLoop t response =
    (case conn_Read bufSize t of
       (Inl e, t') \<Rightarrow> (\<lparr>plainText = response, statusCode = 0, err = Some e\<rparr>, t')
     | (Inr chunk, t') \<Rightarrow>
         (let response' = response @ chunk;
              endIdx = bytes_Index response' terminationMarker
          in if endIdx < 0 then readLoop t' response'
             else if int (length response') - endIdx = techDataTotalLen
             then (\<lparr>plainText = take (nat (int (length response') - techDataTotalLen)) response',
                    statusCode = of_char (response' ! (length response' - 1)),
                    err = None\<rparr>, t')
             else readLoop t' response'))"
  by pat_completeness auto

termination readLoop
  by (relation "measure (\<lambda>(t, response). sum_list (map arrival_size (inbox t)))")
     (auto simp: conn_Read_def bufSize_def split: list.splits arrival.splits if_splits)

declare readLoop.simps [simp del]

definition readResponse :: "Connection \<Rightarrow> socketResponse \<times> Connection" where
  "readResponse c =
    (case conn c of
       None \<Rightarrow>
         (\<lparr>plainText = [], statusCode = 0,
           err = Some (Errorf ''%w %s'' [Err ErrConnNotEstab, Str (socketPath c)])\<rparr>, c)
     | Some t \<Rightarrow> (case readLoop t [] of (r, t') \<Rightarrow> (r, c\<lparr>conn := Some t'\<rparr>)))"

definition Execute :: "ctx \<Rightarrow> string \<Rightarrow> Connection \<Rightarrow> (string \<times> error option) \<times> Connection" where
  "Execute cx cmd c =
    (if conn c = None
     then (([], Some (Errorf ''%w %s'' [Err ErrConnNotEstab, Str (socketPath c)])), c)
     else
       (case setDeadline cx c of
          (Some e, c1) \<Rightarrow>
            (([], Some (Errorf ''set connection deadline %s: %w'' [Str (socketPath c), Err e])), c1)
        | (None, c1) \<Rightarrow>
            (case writeCommand cmd c1 of
               ((n, Some e), c2) \<Rightarrow>
                 (([], Some (Errorf ''write %q to socket %q: %w''
                               [Str cmd, Str (socketPath c), Err e])), c2)
             | ((n, None), c2) \<Rightarrow>
                 (case readResponse c2 of
                    (response, c3) \<Rightarrow>
                      (case err response of
                         Some e \<Rightarrow> ((plainText response, Some e), c3)
                       | None \<Rightarrow>
                           (let sc = statusCode response
                            in if sc \<noteq> Success \<and> sc \<noteq> Warning \<and> sc \<noteq> SuccessDaemon
                               then ((plainText response,
                                      Some (Errorf ''%w, FRR command %q on socket %q: %s''
                                              [Err ErrNotAcceptableStatusCode, Str cmd,
                                               Str (socketPath c), Str (String sc)])), c3)
                               else ((plainText response, None), c3)))))))"

text \<open>
  The response layout drawn at the head of the file: the plaintext, three zero marker
  bytes, one status byte.
\<close>

definition frame :: "string \<Rightarrow> StatusCode \<Rightarrow> string" where
  "frame P S = P @ terminationMarker @ [char_of (unat S)]"

section \<open>Connection: ApplyConfig and ShowRunningConfig\<close>

text \<open>\<^verbatim>\<open>bytes.Split(s, sep)\<close> for a separator of one byte: the pieces between its occurrences.\<close>

fun bytes_Split :: "string \<Rightarrow> char \<Rightarrow> string list" where
  "bytes_Split [] sep = [[]]"
| "bytes_Split (b # s) sep =
     (if b = sep then [] # bytes_Split s sep
      else (case bytes_Split s sep of
              [] \<Rightarrow> [[b]]
            | piece # pieces \<Rightarrow> (b # piece) # pieces))"

text \<open>
  \<^verbatim>\<open>bytes.TrimSpace\<close>, as the library writes it: a scan from the left, then from the
  right, over the six ASCII white-space bytes; the first byte of \<open>0x80\<close> or more that
  either scan meets hands the rest to the Unicode-aware \<^verbatim>\<open>TrimFunc(_, unicode.IsSpace)\<close>,
  which is the parameter \<open>uni\<close> here.
\<close>

definition asciiSpace :: "char \<Rightarrow> bool" where
  "asciiSpace b = (b \<in> set [CHR 0x09, CHR 0x0A, CHR 0x0B, CHR 0x0C, CHR 0x0D, CHR 0x20])"

definition RuneSelf :: nat where
  "RuneSelf = 128"

function trimRight :: "(string \<Rightarrow> string) \<Rightarrow> string \<Rightarrow> string" where
  "trimRight uni s =
    (if s = [] then []
     else if RuneSelf \<le> of_char (last s) then uni s
     else if asciiSpace (last s) then trimRight uni (butlast s)
     else s)"
  by pat_completeness auto

termination trimRight
  by (relation "measure (\<lambda>(uni, s). length s)") auto

declare trimRight.simps [simp del]

fun TrimSpace :: "(string \<Rightarrow> string) \<Rightarrow> string \<Rightarrow> string" where
  "TrimSpace uni [] = []"
| "TrimSpace uni (b # s) =
     (if RuneSelf \<le> of_char b then uni (b # s)
      else if asciiSpace b then TrimSpace uni s
      else trimRight uni (b # s))"

text \<open>
  The first and the last loop of \<^verbatim>\<open>ApplyConfig\<close> have the same body; \<open>runModes\<close> is that
  loop over its list of commands, \<open>runCommands\<close> the middle loop over the lines of the
  blob. Each returns at the first Execute that fails.
\<close>

fun runModes :: "ctx \<Rightarrow> string list \<Rightarrow> Connection \<Rightarrow> error option \<times> Connection" where
  "runModes cx [] c = (None, c)"
| "runModes cx (cmd # cmds) c =
     (case Execute cx cmd c of
        ((r, Some e), c') \<Rightarrow> (Some (Errorf ''could not run %s command: %w'' [Str cmd, Err e]), c')
      | ((r, None), c') \<Rightarrow> runModes cx cmds c')"

fun runCommands ::
  "(string \<Rightarrow> string) \<Rightarrow> ctx \<Rightarrow> string list \<Rightarrow> Connection \<Rightarrow> error option \<times> Connection" where
  "runCommands uni cx [] c = (None, c)"
| "runCommands uni cx (line # commands) c =
     (let cmd = TrimSpace uni line
      in if length cmd = 0 then runCommands uni cx commands c
         else (case Execute cx cmd c of
                 ((r, Some e), c') \<Rightarrow>
                   (Some (Errorf
                      (''exec command '' @ [CHR 0x27] @ ''%s'' @ [CHR 0x27] @
                       '' on frr socket %s while applying config: %w'')
                      [Str cmd, Str (socketPath c), Err e]), c')
               | ((r, None), c') \<Rightarrow> runCommands uni cx commands c'))"

definition ApplyConfig ::
  "(string \<Rightarrow> string) \<Rightarrow> ctx \<Rightarrow> string \<Rightarrow> Connection \<Rightarrow> error option \<times> Connection" where
  "ApplyConfig uni cx config c =
    (let commands = bytes_Split config (CHR 0x0A)
     in case runModes cx [''enable'', ''configure''] c of
          (Some e, c1) \<Rightarrow> (Some e, c1)
        | (None, c1) \<Rightarrow>
            (case runCommands uni cx commands c1 of
               (Some e, c2) \<Rightarrow> (Some e, c2)
             | (None, c2) \<Rightarrow> runModes cx [''exit'', ''disable''] c2))"

definition ShowRunningConfig :: "ctx \<Rightarrow> Connection \<Rightarrow> (string \<times> error option) \<times> Connection" where
  "ShowRunningConfig cx c =
    (case Execute cx ''enable'' c of
       ((r, Some e), c1) \<Rightarrow>
         (([], Some (Errorf ''show running config `enable` command, resp: %s, err: %w''
                       [Str r, Err e])), c1)
     | ((r, None), c1) \<Rightarrow>
         (case Execute cx ''do write terminal'' c1 of
            ((response, Some e), c2) \<Rightarrow>
              (([], Some (Errorf
                  ''show running config `do write terminal` command, resp: %s, err: %w''
                  [Str response, Err e])), c2)
          | ((response, None), c2) \<Rightarrow>
              (case Execute cx ''disable'' c2 of
                 ((r', Some e), c3) \<Rightarrow>
                   (([], Some (Errorf
                       ''show running config `disable` command, resp: %s, err: %w''
                       [Str r', Err e])), c3)
               | ((r', None), c3) \<Rightarrow> ((response, None), c3))))"

section \<open>Sockets\<close>

text \<open>
  A \<^verbatim>\<open>*Connection\<close> is an address in a store of Connection objects; \<open>alloc\<close> is
  \<^verbatim>\<open>&Connection{...}\<close>. The four named fields of a \<^verbatim>\<open>Sockets\<close> and its \<^verbatim>\<open>allConnections\<close> hold
  addresses, so the list and the fields reach the same objects.
\<close>

type_synonym ref = nat

record heap =
  cells :: "ref \<Rightarrow> Connection"
  fresh :: ref

definition load :: "heap \<Rightarrow> ref \<Rightarrow> Connection" where
  "load h r = cells h r"

definition store :: "ref \<Rightarrow> Connection \<Rightarrow> heap \<Rightarrow> heap" where
  "store r c h = h\<lparr>cells := (cells h)(r := c)\<rparr>"

definition alloc :: "Connection \<Rightarrow> heap \<Rightarrow> ref \<times> heap" where
  "alloc c h = (fresh h, h\<lparr>cells := (cells h)(fresh h := c), fresh := Suc (fresh h)\<rparr>)"

definition mgmtSocketName :: string where "mgmtSocketName = ''mgmtd.vty''"
definition bfdSocketName :: string where "bfdSocketName = ''bfdd.vty''"
definition bgpSocketName :: string where "bgpSocketName = ''bgpd.vty''"
definition zebraSocketName :: string where "zebraSocketName = ''zebra.vty''"

text \<open>\<^verbatim>\<open>DefaultFRRConfigPerm = fs.FileMode(0640)\<close>, octal.\<close>

definition DefaultFRRConfigPerm :: nat where
  "DefaultFRRConfigPerm = 6 * 64 + 4 * 8"

record Sockets =
  bgpConn :: ref
  bfdConn :: ref
  mgmtConn :: ref
  zebraConn :: ref
  allConnections :: "ref list"
  frrConfigPath :: string

text \<open>\<^verbatim>\<open>filepath.Join\<close> is the library's; it is the parameter \<open>pathJoin\<close>.\<close>

definition NewSockets ::
  "(string \<Rightarrow> string \<Rightarrow> string) \<Rightarrow> string \<Rightarrow> string \<Rightarrow> heap \<Rightarrow> Sockets \<times> heap" where
  "NewSockets pathJoin configPath frrRunDir h =
    (case alloc (NewConnection (pathJoin frrRunDir bgpSocketName)) h of (bgp, h1) \<Rightarrow>
     case alloc (NewConnection (pathJoin frrRunDir bfdSocketName)) h1 of (bfd, h2) \<Rightarrow>
     case alloc (NewConnection (pathJoin frrRunDir mgmtSocketName)) h2 of (mgmt, h3) \<Rightarrow>
     case alloc (NewConnection (pathJoin frrRunDir zebraSocketName)) h3 of (zebra, h4) \<Rightarrow>
       (\<lparr>bgpConn = bgp, bfdConn = bfd, mgmtConn = mgmt, zebraConn = zebra,
         allConnections = [bgp, bfd, mgmt, zebra],
         frrConfigPath = configPath\<rparr>, h4))"

definition execute :: "ctx \<Rightarrow> ref \<Rightarrow> string \<Rightarrow> heap \<Rightarrow> (string \<times> error option) \<times> heap" where
  "execute cx r cmd h = (case Execute cx cmd (load h r) of (res, c') \<Rightarrow> (res, store r c' h))"

definition ExecuteBFD :: "ctx \<Rightarrow> string \<Rightarrow> Sockets \<Rightarrow> heap \<Rightarrow> (string \<times> error option) \<times> heap" where
  "ExecuteBFD cx cmd s h = execute cx (mgmtConn s) cmd h"

definition ExecuteBGP :: "ctx \<Rightarrow> string \<Rightarrow> Sockets \<Rightarrow> heap \<Rightarrow> (string \<times> error option) \<times> heap" where
  "ExecuteBGP cx cmd s h = execute cx (bgpConn s) cmd h"

definition ExecuteMgmt :: "ctx \<Rightarrow> string \<Rightarrow> Sockets \<Rightarrow> heap \<Rightarrow> (string \<times> error option) \<times> heap" where
  "ExecuteMgmt cx cmd s h = execute cx (mgmtConn s) cmd h"

definition ExecuteZebra :: "ctx \<Rightarrow> string \<Rightarrow> Sockets \<Rightarrow> heap \<Rightarrow> (string \<times> error option) \<times> heap" where
  "ExecuteZebra cx cmd s h = execute cx (zebraConn s) cmd h"

text \<open>The loop of \<^verbatim>\<open>Sockets.Connect\<close>, with the error joined so far as an argument.\<close>

fun connectAll ::
  "ctx \<Rightarrow> ref list \<Rightarrow> error option \<Rightarrow> heap \<Rightarrow> network \<Rightarrow> error option \<times> heap \<times> network" where
  "connectAll cx [] acc h nw = (acc, h, nw)"
| "connectAll cx (r # rs) acc h nw =
     (case Connect cx (load h r) nw of
        (e, c', nw') \<Rightarrow> connectAll cx rs (errors_Join [acc, e]) (store r c' h) nw')"

text \<open>The loop of \<^verbatim>\<open>Sockets.Close\<close>.\<close>

fun closeAll :: "ref list \<Rightarrow> error option \<Rightarrow> heap \<Rightarrow> error option \<times> heap" where
  "closeAll [] acc h = (acc, h)"
| "closeAll (r # rs) acc h =
     (case Close (load h r) of
        (e, c') \<Rightarrow> closeAll rs (errors_Join [acc, e]) (store r c' h))"

definition Sockets_Close :: "Sockets \<Rightarrow> heap \<Rightarrow> error option \<times> heap" where
  "Sockets_Close s h = closeAll (allConnections s) None h"

definition Sockets_Connect ::
  "ctx \<Rightarrow> Sockets \<Rightarrow> heap \<Rightarrow> network \<Rightarrow> error option \<times> heap \<times> network" where
  "Sockets_Connect cx s h nw =
    (case connectAll cx (allConnections s) None h nw of
       (e, h', nw') \<Rightarrow>
         if e \<noteq> None
         then (case Sockets_Close s h' of (ce, h'') \<Rightarrow> (errors_Join [e, ce], h'', nw'))
         else (None, h', nw'))"

subsection \<open>The file system under the dump\<close>

text \<open>
  A file has a content and a permission mode. \<open>writeFault\<close> and \<open>renameFault\<close> say
  which calls fail: a write either before the file is opened (\<^term>\<open>None\<close>) or after it
  was created or truncated and so many bytes were written.
\<close>

record fileEntry =
  content :: string
  perm :: nat

record filesystem =
  files :: "string \<Rightarrow> fileEntry option"
  writeFault :: "string \<Rightarrow> (error \<times> nat option) option"
  renameFault :: "string \<Rightarrow> string \<Rightarrow> error option"

definition putFile :: "string \<Rightarrow> string \<Rightarrow> nat \<Rightarrow> filesystem \<Rightarrow> filesystem" where
  "putFile name data mode fs =
    fs\<lparr>files := (files fs)(name \<mapsto>
          \<lparr>content = data,
           perm = (case files fs name of None \<Rightarrow> mode | Some f \<Rightarrow> perm f)\<rparr>)\<rparr>"

definition os_WriteFile ::
  "string \<Rightarrow> string \<Rightarrow> nat \<Rightarrow> filesystem \<Rightarrow> error option \<times> filesystem" where
  "os_WriteFile name data mode fs =
    (case writeFault fs name of
       None \<Rightarrow> (None, putFile name data mode fs)
     | Some (e, None) \<Rightarrow> (Some e, fs)
     | Some (e, Some k) \<Rightarrow> (Some e, putFile name (take k data) mode fs))"

definition os_Rename :: "string \<Rightarrow> string \<Rightarrow> filesystem \<Rightarrow> error option \<times> filesystem" where
  "os_Rename oldpath newpath fs =
    (case renameFault fs oldpath newpath of
       Some e \<Rightarrow> (Some e, fs)
     | None \<Rightarrow>
         (case files fs oldpath of
            None \<Rightarrow> (Some (New ''no such file or directory''), fs)
          | Some f \<Rightarrow>
              (None, if oldpath = newpath then fs
                     else fs\<lparr>files := ((files fs)(newpath \<mapsto> f))(oldpath := None)\<rparr>)))"

definition atomicWrite ::
  "string \<Rightarrow> string \<Rightarrow> nat \<Rightarrow> filesystem \<Rightarrow> error option \<times> filesystem" where
  "atomicWrite path data mode fs =
    (let tmpPath = path @ ''.tmp''
     in case os_WriteFile tmpPath data mode fs of
          (Some e, fs1) \<Rightarrow>
            (Some (Errorf ''writing temporary file %q: %w'' [Str tmpPath, Err e]), fs1)
        | (None, fs1) \<Rightarrow>
            (case os_Rename tmpPath path fs1 of
               (Some e, fs2) \<Rightarrow>
                 (Some (Errorf ''renaming temporary file %q to destination file %q: %w''
                          [Str tmpPath, Str path, Err e]), fs2)
             | (None, fs2) \<Rightarrow> (None, fs2)))"

text \<open>
  The loop of \<^verbatim>\<open>DumpRunningConfig\<close>, with the buffer \<^verbatim>\<open>resultConfig\<close> as an argument.
  \<^verbatim>\<open>bytes.Buffer.Write\<close> always returns a nil error, so the two checks after the writes
  never return.
\<close>

fun dumpLoop :: "ctx \<Rightarrow> ref list \<Rightarrow> string \<Rightarrow> heap \<Rightarrow> (error + string) \<times> heap" where
  "dumpLoop cx [] resultConfig h = (Inr resultConfig, h)"
| "dumpLoop cx (r # rs) resultConfig h =
     (case ShowRunningConfig cx (load h r) of
        ((resp, Some e), c') \<Rightarrow>
          (Inl (Errorf ''show running config, resp: %s, err: %w'' [Str resp, Err e]),
           store r c' h)
      | ((resp, None), c') \<Rightarrow>
          (let comment = ''! '' @ socketPath c' @ [CHR 0x0A]
           in dumpLoop cx rs (resultConfig @ comment @ resp) (store r c' h)))"

definition DumpRunningConfig ::
  "ctx \<Rightarrow> string \<Rightarrow> nat \<Rightarrow> Sockets \<Rightarrow> heap \<Rightarrow> filesystem \<Rightarrow> error option \<times> heap \<times> filesystem" where
  "DumpRunningConfig cx dstFile mode s h fs =
    (case dumpLoop cx (allConnections s) [] h of
       (Inl e, h') \<Rightarrow> (Some e, h', fs)
     | (Inr resultConfig, h') \<Rightarrow>
         (case atomicWrite dstFile resultConfig mode fs of
            (Some e, fs') \<Rightarrow>
              (Some (Errorf ''atomic write for %s: %w'' [Str (frrConfigPath s), Err e]), h', fs')
          | (None, fs') \<Rightarrow> (None, h', fs')))"

text \<open>
  \<^verbatim>\<open>bytes.Join(pieces, sep)\<close> for a separator of one byte, the inverse of the split: the
  pieces with the separator between each two. It is used only to say what the split
  returns.
\<close>

fun bytes_Join :: "string list \<Rightarrow> char \<Rightarrow> string" where
  "bytes_Join [] sep = []"
| "bytes_Join [piece] sep = piece"
| "bytes_Join (piece # next # pieces) sep = piece @ [sep] @ bytes_Join (next # pieces) sep"

section \<open>What a Connection has sent\<close>

text \<open>
  The arguments of the \<^verbatim>\<open>Write\<close> calls made so far on the transport a Connection holds,
  in call order; nothing for an unconnected one.
\<close>

definition sent :: "Connection \<Rightarrow> string list" where
  "sent c = (case conn c of None \<Rightarrow> [] | Some t \<Rightarrow> written t)"


text \<open>
  For the dump: whether \<^verbatim>\<open>ShowRunningConfig\<close> on the Connection at \<open>r\<close> returns an error,
  and the part of the dump that Connection contributes, the comment line with its socket
  path followed by what \<^verbatim>\<open>ShowRunningConfig\<close> returns.
\<close>

definition showFails :: "ctx \<Rightarrow> heap \<Rightarrow> ref \<Rightarrow> bool" where
  "showFails cx h r = (snd (fst (ShowRunningConfig cx (load h r))) \<noteq> None)"

definition dumpSection :: "ctx \<Rightarrow> heap \<Rightarrow> ref \<Rightarrow> string" where
  "dumpSection cx h r =
     ''! '' @ socketPath (load h r) @ [CHR 0x0A] @ fst (fst (ShowRunningConfig cx (load h r)))"

section \<open>Transports and inputs for the examples\<close>

text \<open>A transport with the given arrivals, on which no call fails.\<close>

definition quiet :: "arrival list \<Rightarrow> transport" where
  "quiet arrivals = \<lparr>inbox = arrivals, deadlineErrs = [], writeErrs = [], closeErr = None,
     deadline = None, written = [], readCalls = 0\<rparr>"

text \<open>A whole response arriving as one chunk; a Connection to a peer that will send the
  given arrivals; a context without a deadline.\<close>

definition reply :: "string \<Rightarrow> StatusCode \<Rightarrow> arrival" where
  "reply txt sc = Chunk (frame txt sc)"

definition daemon :: "arrival list \<Rightarrow> Connection" where
  "daemon arrivals = \<lparr>socketPath = ''/run/frr/bgpd.vty'', conn = Some (quiet arrivals)\<rparr>"

definition background :: ctx where
  "background = \<lparr>ctxDeadline = None, now = 0\<rparr>"

text \<open>The configuration blob of the spec's example for \<^verbatim>\<open>ApplyConfig\<close>.\<close>

definition exampleConfig :: string where
  "exampleConfig = ''router bgp 65000'' @ [CHR 0x0A] @ '' neighbor 10.0.0.1 remote-as 65001''
     @ [CHR 0x0A, CHR 0x0A]"

text \<open>The same two commands with blanks, tabs and carriage returns on both sides of the
  lines, and a last line of white space only.\<close>

definition paddedConfig :: string where
  "paddedConfig = ''router bgp 65000 '' @ [CHR 0x09, CHR 0x0D, CHR 0x0A]
     @ [CHR 0x09] @ '' neighbor 10.0.0.1 remote-as 65001  '' @ [CHR 0x0A]
     @ ''  '' @ [CHR 0x09, CHR 0x0D, CHR 0x0A]"

text \<open>A blob whose second line the daemon will reject.\<close>

definition brokenConfig :: string where
  "brokenConfig = ''router bgp 65000'' @ [CHR 0x0A] @ '' bogus'' @ [CHR 0x0A]
     @ '' neighbor 10.0.0.1 remote-as 65001'' @ [CHR 0x0A]"

text \<open>
  A \<^verbatim>\<open>Sockets\<close> made by \<^verbatim>\<open>NewSockets\<close> for the run directory \<open>/run/frr\<close>, with a path join
  that puts a slash between directory and name; a network on which two of the four
  daemons refuse the dial; a network on which all four accept and answer one command; and
  the store after a successful \<^verbatim>\<open>Connect\<close> on that one.
\<close>

definition joinPath :: "string \<Rightarrow> string \<Rightarrow> string" where
  "joinPath dir name = dir @ ''/'' @ name"

definition emptyHeap :: heap where
  "emptyHeap = \<lparr>cells = (\<lambda>r. NewConnection []), fresh = 0\<rparr>"

definition frr :: Sockets where
  "frr = fst (NewSockets joinPath ''/etc/frr/frr.conf'' ''/run/frr'' emptyHeap)"

definition frrHeap :: heap where
  "frrHeap = snd (NewSockets joinPath ''/etc/frr/frr.conf'' ''/run/frr'' emptyHeap)"


definition allUp :: network where
  "allUp = \<lparr>listening = (\<lambda>path. Inr (quiet [reply ''ok'' Success])), dialed = []\<rparr>"

definition frrUp :: heap where
  "frrUp = fst (snd (Sockets_Connect background frr frrHeap allUp))"

text \<open>
  A network on which every daemon accepts and answers \<open>enable\<close>, \<open>do write terminal\<close> and
  \<open>disable\<close>, the store after \<^verbatim>\<open>Connect\<close> on it, and a disk that holds an old dump and
  on which no call fails.
\<close>

definition serving :: network where
  "serving = \<lparr>listening = (\<lambda>path. Inr (quiet
       [reply [] Success, reply (''hostname '' @ path @ [CHR 0x0A]) Success, reply [] Success])),
     dialed = []\<rparr>"

definition frrServing :: heap where
  "frrServing = fst (snd (Sockets_Connect background frr frrHeap serving))"

definition disk :: filesystem where
  "disk = \<lparr>files = (\<lambda>path. if path = ''/etc/frr/frr.conf''
                             then Some \<lparr>content = ''old'', perm = DefaultFRRConfigPerm\<rparr> else None),
            writeFault = (\<lambda>path. None), renameFault = (\<lambda>old new. None)\<rparr>"

section \<open>Properties of the status codes\<close>

lemmas StatusCode_defs =
  Success_def Warning_def ErrNoMatch_def ErrAmbiguous_def ErrIncomplete_def
  ErrExeedArgcMax_def ErrNothingTodo_def CompleteFullMatch_def CompleteMatch_def
  CompleteListMatch_def SuccessDaemon_def ErrNoFile_def Suspend_def
  WarningConfigFailed_def NotMyInstance_def NoLevelUp_def ErrNoDaemon_def

text \<open>The definitions that evaluating a run on a concrete transport unfolds.\<close>

lemmas run_defs =
  daemon_def quiet_def reply_def frame_def background_def Execute_def setDeadline_def
  writeCommand_def readResponse_def readLoop.simps conn_Read_def conn_Write_def
  conn_SetDeadline_def bufSize_def terminationMarker_def techDataTotalLen_def
  StatusCode_defs trimRight.simps asciiSpace_def RuneSelf_def DefaultTimeout_def Let_def
  char_of_def bit_Suc_0_iff

lemmas frr_defs =
  frr_def frrHeap_def NewSockets_def alloc_def emptyHeap_def joinPath_def NewConnection_def
  bgpSocketName_def bfdSocketName_def mgmtSocketName_def zebraSocketName_def
  load_def store_def

lemma unknown_status: "16 < unat sc \<Longrightarrow> String sc = ''unknown status code''"
  unfolding String_def StatusCode_defs
  by (auto simp: unat_eq_0 dest!: arg_cong [where f = unat])

text \<open>
  Claim C9. The seventeen constants are the values 0 to 16 in declaration order, \<open>String\<close>
  maps them to the seventeen mnemonics from \<open>CMD_SUCCESS\<close> to \<open>CMD_ERR_NO_DAEMON\<close>, and
  every other byte value (17 to 255) gets the one fallback string, which is not empty.
  \<open>String\<close> is a total function: it has a result for every byte.
\<close>

theorem String_mnemonics:
  "[Success, Warning, ErrNoMatch, ErrAmbiguous, ErrIncomplete, ErrExeedArgcMax, ErrNothingTodo,
    CompleteFullMatch, CompleteMatch, CompleteListMatch, SuccessDaemon, ErrNoFile, Suspend,
    WarningConfigFailed, NotMyInstance, NoLevelUp, ErrNoDaemon]
   = [0, 1, 2, 3, 4, 5, 6, 7, 8, 9, 10, 11, 12, 13, 14, 15, 16]
   \<and> map String [0, 1, 2, 3, 4, 5, 6, 7, 8, 9, 10, 11, 12, 13, 14, 15, 16]
   = [''CMD_SUCCESS'', ''CMD_WARNING'', ''CMD_ERR_NO_MATCH'', ''CMD_ERR_AMBIGUOUS'',
      ''CMD_ERR_INCOMPLETE'', ''CMD_ERR_EXEED_ARGC_MAX'', ''CMD_ERR_NOTHING_TODO'',
      ''CMD_COMPLETE_FULL_MATCH'', ''CMD_COMPLETE_MATCH'', ''CMD_COMPLETE_LIST_MATCH'',
      ''CMD_SUCCESS_DAEMON'', ''CMD_ERR_NO_FILE'', ''CMD_SUSPEND'',
      ''CMD_WARNING_CONFIG_FAILED'', ''CMD_NOT_MY_INSTANCE'', ''CMD_NO_LEVEL_UP'',
      ''CMD_ERR_NO_DAEMON'']
   \<and> (\<forall>sc. 16 < unat sc \<longrightarrow> String sc = ''unknown status code'')
   \<and> ''unknown status code'' \<noteq> []"
proof (intro conjI allI impI)
  show "[Success, Warning, ErrNoMatch, ErrAmbiguous, ErrIncomplete, ErrExeedArgcMax,
    ErrNothingTodo, CompleteFullMatch, CompleteMatch, CompleteListMatch, SuccessDaemon,
    ErrNoFile, Suspend, WarningConfigFailed, NotMyInstance, NoLevelUp, ErrNoDaemon]
   = [0, 1, 2, 3, 4, 5, 6, 7, 8, 9, 10, 11, 12, 13, 14, 15, 16]"
    by (simp add: StatusCode_defs)
  show "map String [0, 1, 2, 3, 4, 5, 6, 7, 8, 9, 10, 11, 12, 13, 14, 15, 16]
   = [''CMD_SUCCESS'', ''CMD_WARNING'', ''CMD_ERR_NO_MATCH'', ''CMD_ERR_AMBIGUOUS'',
      ''CMD_ERR_INCOMPLETE'', ''CMD_ERR_EXEED_ARGC_MAX'', ''CMD_ERR_NOTHING_TODO'',
      ''CMD_COMPLETE_FULL_MATCH'', ''CMD_COMPLETE_MATCH'', ''CMD_COMPLETE_LIST_MATCH'',
      ''CMD_SUCCESS_DAEMON'', ''CMD_ERR_NO_FILE'', ''CMD_SUSPEND'',
      ''CMD_WARNING_CONFIG_FAILED'', ''CMD_NOT_MY_INSTANCE'', ''CMD_NO_LEVEL_UP'',
      ''CMD_ERR_NO_DAEMON'']"
    by (simp add: String_def StatusCode_defs)
  show "String sc = ''unknown status code''" if "16 < unat sc" for sc
    using that by (rule unknown_status)
  show "''unknown status code'' \<noteq> []" by simp
qed

theorem String_mnemonics_witness:
  "16 < unat (17 :: StatusCode) \<and> String 17 = ''unknown status code''
   \<and> 16 < unat (255 :: StatusCode) \<and> String 255 = ''unknown status code''"
proof -
  have fallback: "\<forall>sc. 16 < unat sc \<longrightarrow> String sc = ''unknown status code''"
    by (rule String_mnemonics [THEN conjunct2, THEN conjunct2, THEN conjunct1])
  have a: "16 < unat (17 :: StatusCode)" and b: "16 < unat (255 :: StatusCode)" by simp_all
  from fallback [rule_format, OF a] fallback [rule_format, OF b] a b show ?thesis by blast
qed

section \<open>Close and Execute on one Connection\<close>

text \<open>
  Claim C10. After \<open>Close\<close> the Connection is unconnected, whatever state it was in and
  whatever the transport's own close reported; its socket path is the same; a second
  \<open>Close\<close> right after returns nil and changes nothing; and \<open>Close\<close> on an unconnected
  Connection returns nil and changes nothing.
\<close>

theorem Close_leaves_unconnected:
  "conn (snd (Close c)) = None
   \<and> socketPath (snd (Close c)) = socketPath c
   \<and> Close (snd (Close c)) = (None, snd (Close c))
   \<and> (conn c = None \<longrightarrow> Close c = (None, c))"
  by (auto simp: Close_def split: option.splits)

theorem Close_leaves_unconnected_witness:
  "fst (Close \<lparr>socketPath = ''/run/frr/bgpd.vty'',
               conn = Some ((quiet [])\<lparr>closeErr := Some (New ''use of closed network connection'')\<rparr>)\<rparr>)
     = Some (Errorf ''socket connection close %s: %w''
              [Str ''/run/frr/bgpd.vty'', Err (New ''use of closed network connection'')])
   \<and> conn (snd (Close \<lparr>socketPath = ''/run/frr/bgpd.vty'',
               conn = Some ((quiet [])\<lparr>closeErr := Some (New ''use of closed network connection'')\<rparr>)\<rparr>)) = None
   \<and> Close (NewConnection ''/run/frr/bgpd.vty'') = (None, NewConnection ''/run/frr/bgpd.vty'')"
proof -
  let ?c = "\<lparr>socketPath = ''/run/frr/bgpd.vty'',
               conn = Some ((quiet [])\<lparr>closeErr := Some (New ''use of closed network connection'')\<rparr>)\<rparr>"
  have "conn (NewConnection ''/run/frr/bgpd.vty'') = None" by (simp add: NewConnection_def)
  with Close_leaves_unconnected [of "NewConnection ''/run/frr/bgpd.vty''"]
  have "Close (NewConnection ''/run/frr/bgpd.vty'') = (None, NewConnection ''/run/frr/bgpd.vty'')"
    by blast
  moreover from Close_leaves_unconnected [of ?c] have "conn (snd (Close ?c)) = None" by blast
  moreover have "fst (Close ?c) = Some (Errorf ''socket connection close %s: %w''
              [Str ''/run/frr/bgpd.vty'', Err (New ''use of closed network connection'')])"
    by (simp add: Close_def conn_Close_def quiet_def)
  ultimately show ?thesis by blast
qed

text \<open>
  Claim C8. On an unconnected Connection \<open>Execute\<close> returns at once, for every context
  and command: no plaintext, the error that wraps \<open>ErrConnNotEstab\<close> with the socket
  path, and the Connection exactly as it was. All transport I/O of the model goes through
  the transport a Connection holds and is recorded there (deadline set, writes, reads);
  here there is none and the Connection is unchanged, so nothing was written or read.
\<close>

theorem Execute_unconnected:
  assumes "conn c = None"
  shows "Execute cx cmd c
           = (([], Some (Errorf ''%w %s'' [Err ErrConnNotEstab, Str (socketPath c)])), c)
         \<and> errors_Is (Errorf ''%w %s'' [Err ErrConnNotEstab, Str (socketPath c)]) ErrConnNotEstab"
  using assms by (simp add: Execute_def ErrConnNotEstab_def)

theorem Execute_unconnected_witness:
  "conn (NewConnection ''/run/frr/zebra.vty'') = None
   \<and> Execute \<lparr>ctxDeadline = None, now = 0\<rparr> ''show version'' (NewConnection ''/run/frr/zebra.vty'')
       = (([], Some (Errorf ''%w %s''
                      [Err (New ''connection is not established for socket''),
                       Str ''/run/frr/zebra.vty''])),
          NewConnection ''/run/frr/zebra.vty'')"
proof -
  have n: "conn (NewConnection ''/run/frr/zebra.vty'') = None"
    by (simp add: NewConnection_def)
  from Execute_unconnected [OF n, of "\<lparr>ctxDeadline = None, now = 0\<rparr>" "''show version''"] n
  show ?thesis by (simp add: ErrConnNotEstab_def NewConnection_def)
qed

section \<open>The read/parse cycle on a framed response\<close>

lemma of_char_byte: "(of_char (char_of (unat S)) :: 8 word) = S"
proof -
  have "(of_char (char_of (unat S)) :: 8 word) = of_nat (of_char (char_of (unat S)))"
    by (simp only: of_nat_of_char)
  also have "\<dots> = of_nat (unat S mod 256)" by simp
  also have "\<dots> = S" using unsigned_less [of S, where 'a = nat] by simp
  finally show ?thesis .
qed

lemma bytes_Index_ge: "- 1 \<le> bytes_Index s sep"
  by (induction s) (auto simp: Let_def)

lemma bytes_Index_neg_iff: "bytes_Index s sep < 0 \<longleftrightarrow> \<not> sublist sep s"
  by (induction s) (auto simp: Let_def sublist_Cons_right)

text \<open>Where no occurrence starts inside \<open>xs\<close>, the search moves on to what follows it.\<close>

lemma bytes_Index_skip:
  assumes "\<forall>j<length xs. \<not> prefix sep (drop j (xs @ ys))"
  shows "bytes_Index (xs @ ys) sep =
    (if bytes_Index ys sep < 0 then - 1 else int (length xs) + bytes_Index ys sep)"
  using assms
proof (induction xs)
  case Nil
  then show ?case using bytes_Index_ge [of ys sep] by auto
next
  case (Cons x xs)
  have np: "\<not> prefix sep (x # xs @ ys)" using Cons.prems by (auto dest: spec [of _ 0])
  have "\<forall>j<length xs. \<not> prefix sep (drop j (xs @ ys))"
  proof (intro allI impI)
    fix j assume "j < length xs"
    then have "Suc j < length (x # xs)" by simp
    with Cons.prems have "\<not> prefix sep (drop (Suc j) ((x # xs) @ ys))" by blast
    then show "\<not> prefix sep (drop j (xs @ ys))" by simp
  qed
  from Cons.IH [OF this] np show ?case by (auto simp: Let_def)
qed

text \<open>
  No occurrence of the marker starts inside a payload that has no run of three zero
  bytes and does not end in a zero byte, whatever follows the payload.
\<close>

lemma marker_not_inside:
  assumes "\<not> sublist terminationMarker P" and "P = [] \<or> last P \<noteq> CHR 0x00" and "j < length P"
  shows "\<not> prefix terminationMarker (drop j (P @ ys))"
proof
  assume pre: "prefix terminationMarker (drop j (P @ ys))"
  let ?d = "drop j P"
  have d: "?d \<noteq> []" using assms(3) by simp
  from pre assms(3) have "prefix terminationMarker (?d @ ys)" by simp
  then consider "prefix terminationMarker ?d" | us where "terminationMarker = ?d @ us"
    by (auto simp: prefix_append)
  then show False
  proof cases
    case 1
    then have "sublist terminationMarker P"
      by (metis append_take_drop_id prefix_def sublist_appendI)
    with assms(1) show False by simp
  next
    case 2
    have "last ?d \<in> set ?d" using d by (rule last_in_set)
    also have "set ?d \<subseteq> set terminationMarker" by (subst 2) simp
    finally have "last ?d = CHR 0x00" by (simp add: terminationMarker_def)
    moreover have "last ?d = last P" using d by simp
    ultimately show False using assms(2,3) by auto
  qed
qed

text \<open>On a prefix of a frame the loop's test succeeds exactly when the prefix is the whole frame.\<close>

lemma bytes_Index_frame_prefix:
  assumes "\<not> sublist terminationMarker P" and "P = [] \<or> last P \<noteq> CHR 0x00"
    and "prefix r (frame P S)"
  shows "0 \<le> bytes_Index r terminationMarker
           \<and> int (length r) - bytes_Index r terminationMarker = techDataTotalLen
         \<longleftrightarrow> r = frame P S"
proof (cases "length r \<le> length P")
  case True
  then have "prefix r P" using assms(3) by (auto simp: frame_def prefix_def append_eq_append_conv2)
  then have "\<not> sublist terminationMarker r"
    using assms(1) by (meson prefix_imp_sublist sublist_order.order_trans)
  then have "bytes_Index r terminationMarker < 0" by (simp add: bytes_Index_neg_iff)
  moreover have "r \<noteq> frame P S" using True by (auto simp: frame_def)
  ultimately show ?thesis by auto
next
  case False
  then obtain ys where r: "r = P @ ys" and ys: "prefix ys (terminationMarker @ [char_of (unat S)])"
    using assms(3) by (auto simp: frame_def prefix_def append_eq_append_conv2)
  have skip: "\<forall>j<length P. \<not> prefix terminationMarker (drop j (P @ ys))"
    using marker_not_inside [OF assms(1,2)] by blast
  have idx: "bytes_Index (P @ ys) terminationMarker =
      (if bytes_Index ys terminationMarker < 0 then - 1
       else int (length P) + bytes_Index ys terminationMarker)"
    by (rule bytes_Index_skip [OF skip])
  from ys consider "ys = []" | "ys = [CHR 0x00]" | "ys = [CHR 0x00, CHR 0x00]"
    | "ys = terminationMarker" | "ys = terminationMarker @ [char_of (unat S)]"
    by (auto simp: terminationMarker_def prefix_Cons split: list.splits)
  then show ?thesis
    using idx by cases (auto simp: r frame_def terminationMarker_def techDataTotalLen_def)
qed

lemma frame_take: "take (nat (int (length (frame P S)) - techDataTotalLen)) (frame P S) = P"
  by (simp add: frame_def terminationMarker_def techDataTotalLen_def)

lemma frame_status: "(of_char (frame P S ! (length (frame P S) - 1)) :: 8 word) = S"
  by (simp add: frame_def terminationMarker_def nth_append of_char_byte)

lemma readLoop_frame:
  assumes good: "\<not> sublist terminationMarker P" "P = [] \<or> last P \<noteq> CHR 0x00"
  shows "inbox t = map Chunk chunks @ rest \<Longrightarrow> response @ concat chunks = frame P S \<Longrightarrow>
         response \<noteq> frame P S \<Longrightarrow>
         fst (readLoop t response) = \<lparr>plainText = P, statusCode = S, err = None\<rparr>"
proof (induction t response arbitrary: chunks rule: readLoop.induct)
  case (1 t response)
  from "1.prems"(2,3) obtain c cs where chunks: "chunks = c # cs"
    by (cases chunks) auto
  define chunk where "chunk = take bufSize c"
  define chunks' where "chunks' = (if length c \<le> bufSize then cs else drop bufSize c # cs)"
  define t' where "t' = snd (conn_Read bufSize t)"
  have rd: "conn_Read bufSize t = (Inr chunk, t')"
    using "1.prems"(1) by (simp add: conn_Read_def chunks chunk_def t'_def)
  have inbox': "inbox t' = map Chunk chunks' @ rest"
    using "1.prems"(1) by (simp add: conn_Read_def chunks chunks'_def t'_def)
  have cat: "chunk @ concat chunks' = concat chunks"
    by (simp add: chunks chunk_def chunks'_def)
  let ?r = "response @ chunk"
  have whole: "?r @ concat chunks' = frame P S"
    using "1.prems"(2) cat by simp
  then have pre: "prefix ?r (frame P S)"
    by (metis prefixI)
  note done_iff = bytes_Index_frame_prefix [OF good pre]
  show ?case
  proof (cases "?r = frame P S")
    case True
    with done_iff have "0 \<le> bytes_Index ?r terminationMarker"
      and "int (length ?r) - bytes_Index ?r terminationMarker = techDataTotalLen" by auto
    then have "fst (readLoop t response) =
        \<lparr>plainText = take (nat (int (length ?r) - techDataTotalLen)) ?r,
         statusCode = of_char (?r ! (length ?r - 1)), err = None\<rparr>"
      by (subst readLoop.simps) (simp add: rd Let_def del: nth_append_length)
    then show ?thesis
      unfolding True by (simp only: frame_take frame_status)
  next
    case False
    with done_iff have nd: "bytes_Index ?r terminationMarker < 0 \<or>
        int (length ?r) - bytes_Index ?r terminationMarker \<noteq> techDataTotalLen" by auto
    then have step: "readLoop t response = readLoop t' ?r"
      by (subst readLoop.simps) (auto simp: rd Let_def)
    have "fst (readLoop t' ?r) = \<lparr>plainText = P, statusCode = S, err = None\<rparr>"
    proof (cases "bytes_Index ?r terminationMarker < 0")
      case True
      show ?thesis
        by (rule "1.IH"(1) [OF rd [symmetric] refl refl refl True inbox' whole False])
    next
      case neg: False
      with nd have "int (length ?r) - bytes_Index ?r terminationMarker \<noteq> techDataTotalLen" by simp
      then show ?thesis
        by (rule "1.IH"(2) [OF rd [symmetric] refl refl refl neg _ inbox' whole False])
    qed
    with step show ?thesis by simp
  qed
qed

text \<open>
  Claim C1 as stated fails on a payload that ends in a zero byte. The payload
  \<open>o k 00\<close> has no run of three zero bytes; framed with status \<open>Warning\<close> it is
  \<open>o k 00 00 00 00 01\<close>, where the first run of three zero bytes starts one byte before
  the marker. Delivered one byte at a time, the cycle completes after the sixth byte with
  plaintext \<open>ok\<close> and status \<open>Success\<close>; delivered in one chunk, the test never
  succeeds and the cycle ends with the error of the next read.
\<close>

theorem readResponse_roundtrip_counterexample:
  "\<not> sublist terminationMarker [CHR ''o'', CHR ''k'', CHR 0x00]
   \<and> concat [[CHR ''o''], [CHR ''k''], [CHR 0x00], [CHR 0x00], [CHR 0x00], [CHR 0x00], [CHR 0x01]]
       = frame [CHR ''o'', CHR ''k'', CHR 0x00] Warning
   \<and> fst (readResponse \<lparr>socketPath = ''/run/frr/bgpd.vty'',
        conn = Some (quiet (map Chunk
          [[CHR ''o''], [CHR ''k''], [CHR 0x00], [CHR 0x00], [CHR 0x00], [CHR 0x00], [CHR 0x01]]))\<rparr>)
       = \<lparr>plainText = ''ok'', statusCode = Success, err = None\<rparr>
   \<and> fst (readResponse \<lparr>socketPath = ''/run/frr/bgpd.vty'',
        conn = Some (quiet [Chunk (frame [CHR ''o'', CHR ''k'', CHR 0x00] Warning)])\<rparr>)
       = \<lparr>plainText = frame [CHR ''o'', CHR ''k'', CHR 0x00] Warning, statusCode = 0,
          err = Some io_EOF\<rparr>"
  by (simp add: readResponse_def readLoop.simps quiet_def conn_Read_def bufSize_def
      terminationMarker_def techDataTotalLen_def frame_def Warning_def Success_def
      sublist_Cons_right char_of_def bit_Suc_0_iff)

text \<open>
  Claim C1, amended. For every payload \<open>P\<close> that has no run of three zero bytes and does
  not end in a zero byte, and every status byte \<open>S\<close>: however the frame
  \<open>P @ [0, 0, 0, S]\<close> is split into chunks (empty chunks and chunks longer than the read
  buffer included, and whatever arrives after the frame), the read/parse cycle returns,
  with plaintext \<open>P\<close>, status \<open>S\<close> and no error. So the result is the same for all
  chunkings. \<open>readResponse\<close> is a total function of the model, whose loop was shown to
  terminate when it was defined.
\<close>

theorem readResponse_roundtrip:
  assumes "\<not> sublist terminationMarker P" and "P = [] \<or> last P \<noteq> CHR 0x00"
    and "concat chunks = frame P S"
    and "conn c = Some t" and "inbox t = map Chunk chunks @ rest"
  shows "fst (readResponse c) = \<lparr>plainText = P, statusCode = S, err = None\<rparr>"
proof -
  have "([] :: string) \<noteq> frame P S" by (simp add: frame_def)
  with readLoop_frame [OF assms(1,2) assms(5), of "[]" S] assms(3)
  have "fst (readLoop t []) = \<lparr>plainText = P, statusCode = S, err = None\<rparr>" by simp
  then show ?thesis using assms(4) by (cases "readLoop t []") (simp add: readResponse_def)
qed

theorem readResponse_roundtrip_witness:
  "\<not> sublist terminationMarker ''ok''
   \<and> concat [[CHR ''o''], [CHR ''k''], [CHR 0x00], [CHR 0x00], [CHR 0x00], [CHR 0x01]] = frame ''ok'' Warning
   \<and> concat [''ok'' @ [CHR 0x00, CHR 0x00], [], [CHR 0x00, CHR 0x01]] = frame ''ok'' Warning
   \<and> fst (readResponse \<lparr>socketPath = ''/run/frr/bgpd.vty'',
        conn = Some (quiet (map Chunk
          [[CHR ''o''], [CHR ''k''], [CHR 0x00], [CHR 0x00], [CHR 0x00], [CHR 0x01]]))\<rparr>)
       = \<lparr>plainText = ''ok'', statusCode = Warning, err = None\<rparr>
   \<and> fst (readResponse \<lparr>socketPath = ''/run/frr/bgpd.vty'',
        conn = Some (quiet (map Chunk [''ok'' @ [CHR 0x00, CHR 0x00], [], [CHR 0x00, CHR 0x01]]))\<rparr>)
       = \<lparr>plainText = ''ok'', statusCode = Warning, err = None\<rparr>"
proof -
  have g1: "\<not> sublist terminationMarker ''ok''"
    by (simp add: terminationMarker_def sublist_Cons_right)
  have g2: "''ok'' = [] \<or> last ''ok'' \<noteq> CHR 0x00" by simp
  have c1: "concat [[CHR ''o''], [CHR ''k''], [CHR 0x00], [CHR 0x00], [CHR 0x00], [CHR 0x01]]
      = frame ''ok'' Warning"
    by (simp add: frame_def terminationMarker_def Warning_def char_of_def bit_Suc_0_iff)
  have c2: "concat [''ok'' @ [CHR 0x00, CHR 0x00], [], [CHR 0x00, CHR 0x01]] = frame ''ok'' Warning"
    by (simp add: frame_def terminationMarker_def Warning_def char_of_def bit_Suc_0_iff)
  let ?t1 = "quiet (map Chunk [[CHR ''o''], [CHR ''k''], [CHR 0x00], [CHR 0x00], [CHR 0x00], [CHR 0x01]])"
  let ?t2 = "quiet (map Chunk [''ok'' @ [CHR 0x00, CHR 0x00], [], [CHR 0x00, CHR 0x01]])"
  have i1: "inbox ?t1 = map Chunk [[CHR ''o''], [CHR ''k''], [CHR 0x00], [CHR 0x00], [CHR 0x00], [CHR 0x01]] @ []"
    by (simp add: quiet_def)
  have i2: "inbox ?t2 = map Chunk [''ok'' @ [CHR 0x00, CHR 0x00], [], [CHR 0x00, CHR 0x01]] @ []"
    by (simp add: quiet_def)
  have s1: "conn \<lparr>socketPath = ''/run/frr/bgpd.vty'', conn = Some ?t1\<rparr> = Some ?t1" by simp
  have s2: "conn \<lparr>socketPath = ''/run/frr/bgpd.vty'', conn = Some ?t2\<rparr> = Some ?t2" by simp
  note r1 = readResponse_roundtrip [OF g1 g2 c1 s1 i1]
  note r2 = readResponse_roundtrip [OF g1 g2 c2 s2 i2]
  from g1 c1 c2 r1 r2 show ?thesis by blast
qed

section \<open>Execute: the status check\<close>

text \<open>
  Claim C7. On a connected Connection whose deadline is set and whose command is written
  without error, when the read/parse cycle completes (no read error) with status \<open>sc\<close>:
  if \<open>sc\<close> is \<open>Success\<close>, \<open>Warning\<close> or \<open>SuccessDaemon\<close>, \<open>Execute\<close> returns the plaintext
  and no error; for every other status it returns the same plaintext together with an
  error that wraps \<open>ErrNotAcceptableStatusCode\<close> and carries the command, the socket
  path and the mnemonic of \<open>sc\<close>.
\<close>

theorem Execute_status_check:
  assumes "conn c \<noteq> None"
    and "setDeadline cx c = (None, c1)"
    and "writeCommand cmd c1 = ((n, None), c2)"
    and "readResponse c2 = (resp, c3)"
    and "err resp = None"
  shows "Execute cx cmd c =
      (if statusCode resp = Success \<or> statusCode resp = Warning \<or> statusCode resp = SuccessDaemon
       then ((plainText resp, None), c3)
       else ((plainText resp,
              Some (Errorf ''%w, FRR command %q on socket %q: %s''
                     [Err ErrNotAcceptableStatusCode, Str cmd, Str (socketPath c),
                      Str (String (statusCode resp))])), c3))
    \<and> errors_Is (Errorf ''%w, FRR command %q on socket %q: %s''
                     [Err ErrNotAcceptableStatusCode, Str cmd, Str (socketPath c),
                      Str (String (statusCode resp))]) ErrNotAcceptableStatusCode"
  using assms by (auto simp: Execute_def ErrNotAcceptableStatusCode_def)

theorem Execute_status_check_witness:
  "fst (Execute background ''show foo'' (daemon [reply ''% Unknown command.'' ErrNoMatch]))
     = (''% Unknown command.'',
        Some (Errorf ''%w, FRR command %q on socket %q: %s''
               [Err (New ''not acceptable status code''), Str ''show foo'',
                Str ''/run/frr/bgpd.vty'', Str ''CMD_ERR_NO_MATCH'']))
   \<and> fst (Execute background ''show foo'' (daemon [reply ''ok'' SuccessDaemon])) = (''ok'', None)"
proof -
  have rejected: "fst (Execute background ''show foo'' (daemon [reply ''% Unknown command.'' ErrNoMatch]))
     = (''% Unknown command.'',
        Some (Errorf ''%w, FRR command %q on socket %q: %s''
               [Err (New ''not acceptable status code''), Str ''show foo'',
                Str ''/run/frr/bgpd.vty'', Str ''CMD_ERR_NO_MATCH'']))"
  proof -
    let ?c = "daemon [reply ''% Unknown command.'' ErrNoMatch]"
    let ?c1 = "snd (setDeadline background ?c)"
    let ?c2 = "snd (writeCommand ''show foo'' ?c1)"
    let ?resp = "fst (readResponse ?c2)"
    let ?c3 = "snd (readResponse ?c2)"
    have h1: "conn ?c \<noteq> None" by (simp add: daemon_def)
    have h2: "setDeadline background ?c = (None, ?c1)" by (simp add: run_defs)
    have h3: "writeCommand ''show foo'' ?c1 = ((9, None), ?c2)" by (simp add: run_defs)
    have h4: "readResponse ?c2 = (?resp, ?c3)" by simp
    have h5: "err ?resp = None" by (simp add: run_defs)
    have sc: "statusCode ?resp = ErrNoMatch" "plainText ?resp = ''% Unknown command.''"
      "socketPath ?c = ''/run/frr/bgpd.vty''"
      by (simp_all add: run_defs)
    from Execute_status_check [OF h1 h2 h3 h4 h5, THEN conjunct1] sc
    show ?thesis by (simp add: StatusCode_defs String_def ErrNotAcceptableStatusCode_def)
  qed
  have accepted: "fst (Execute background ''show foo'' (daemon [reply ''ok'' SuccessDaemon])) = (''ok'', None)"
  proof -
    let ?c = "daemon [reply ''ok'' SuccessDaemon]"
    let ?c1 = "snd (setDeadline background ?c)"
    let ?c2 = "snd (writeCommand ''show foo'' ?c1)"
    let ?resp = "fst (readResponse ?c2)"
    let ?c3 = "snd (readResponse ?c2)"
    have h1: "conn ?c \<noteq> None" by (simp add: daemon_def)
    have h2: "setDeadline background ?c = (None, ?c1)" by (simp add: run_defs)
    have h3: "writeCommand ''show foo'' ?c1 = ((9, None), ?c2)" by (simp add: run_defs)
    have h4: "readResponse ?c2 = (?resp, ?c3)" by simp
    have h5: "err ?resp = None" by (simp add: run_defs)
    have sc: "statusCode ?resp = SuccessDaemon" "plainText ?resp = ''ok''"
      by (simp_all add: run_defs)
    from Execute_status_check [OF h1 h2 h3 h4 h5, THEN conjunct1] sc
    show ?thesis by simp
  qed
  from rejected accepted show ?thesis by (rule conjI)
qed

section \<open>What Execute, ApplyConfig and ShowRunningConfig send\<close>

lemma conn_Read_written: "written (snd (conn_Read n t)) = written t"
  by (simp add: conn_Read_def split: list.splits arrival.splits)

lemma readLoop_written: "written (snd (readLoop t response)) = written t"
proof (induction t response rule: readLoop.induct)
  case (1 t response)
  show ?case
  proof (cases "conn_Read bufSize t")
    case (Pair x t')
    have w: "written t' = written t" using conn_Read_written [of bufSize t] Pair by simp
    show ?thesis
    proof (cases x)
      case (Inl e)
      then show ?thesis using Pair w by (subst readLoop.simps) simp
    next
      case (Inr b)
      note ih = "1.IH" [OF Pair [symmetric] Inr refl refl]
      show ?thesis
        using Pair Inr w ih by (subst readLoop.simps) (auto simp: Let_def)
    qed
  qed
qed

lemma readResponse_sent: "sent (snd (readResponse c)) = sent c"
proof (cases "conn c")
  case None
  then show ?thesis by (simp add: readResponse_def)
next
  case (Some t)
  then show ?thesis
    using readLoop_written [of t "[]"]
    by (cases "readLoop t []") (simp add: readResponse_def sent_def)
qed

lemma readResponse_socketPath: "socketPath (snd (readResponse c)) = socketPath c"
  by (auto simp: readResponse_def split: option.splits prod.splits)

lemma readResponse_conn: "conn c \<noteq> None \<Longrightarrow> conn (snd (readResponse c)) \<noteq> None"
  by (auto simp: readResponse_def split: option.splits prod.splits)

lemma setDeadline_keeps:
  "sent (snd (setDeadline cx c)) = sent c"
  "socketPath (snd (setDeadline cx c)) = socketPath c"
  "conn c \<noteq> None \<Longrightarrow> conn (snd (setDeadline cx c)) \<noteq> None"
  by (auto simp: setDeadline_def conn_SetDeadline_def sent_def Let_def
      split: option.splits list.splits prod.splits)

lemma writeCommand_keeps:
  "conn c \<noteq> None \<Longrightarrow> sent (snd (writeCommand cmd c)) = sent c @ [cmd @ [CHR 0x00]]"
  "socketPath (snd (writeCommand cmd c)) = socketPath c"
  "conn c \<noteq> None \<Longrightarrow> conn (snd (writeCommand cmd c)) \<noteq> None"
  by (auto simp: writeCommand_def conn_Write_def sent_def
      split: option.splits list.splits prod.splits)

text \<open>What one Execute does to the Connection: it stays as connected as it was, keeps its
  path, and sends its command at most once; when it returns no error it has sent it.\<close>

lemma Execute_effect:
  "socketPath (snd (Execute cx cmd c)) = socketPath c
   \<and> (conn (snd (Execute cx cmd c)) = None \<longleftrightarrow> conn c = None)
   \<and> (sent (snd (Execute cx cmd c)) = sent c
        \<or> sent (snd (Execute cx cmd c)) = sent c @ [cmd @ [CHR 0x00]])
   \<and> (snd (fst (Execute cx cmd c)) = None \<longrightarrow>
        sent (snd (Execute cx cmd c)) = sent c @ [cmd @ [CHR 0x00]])"
proof (cases "conn c = None")
  case True
  then show ?thesis by (simp add: Execute_def)
next
  case False
  obtain r1 c1 where sd: "setDeadline cx c = (r1, c1)" by (cases "setDeadline cx c")
  have c1: "sent c1 = sent c" "socketPath c1 = socketPath c" "conn c1 \<noteq> None"
    using setDeadline_keeps [where c = c and cx = cx] False sd by simp_all
  show ?thesis
  proof (cases r1)
    case (Some e)
    then show ?thesis using False sd c1 by (auto simp: Execute_def)
  next
    case None
    obtain n r2 c2 where wc: "writeCommand cmd c1 = ((n, r2), c2)"
      by (cases "writeCommand cmd c1") auto
    have c2: "sent c2 = sent c @ [cmd @ [CHR 0x00]]" "socketPath c2 = socketPath c" "conn c2 \<noteq> None"
      using writeCommand_keeps [where c = c1 and cmd = cmd] c1 wc by simp_all
    show ?thesis
    proof (cases r2)
      case (Some e)
      then show ?thesis using False sd None wc c2 by (auto simp: Execute_def)
    next
      case n2: None
      obtain resp c3 where rr: "readResponse c2 = (resp, c3)" by (cases "readResponse c2")
      have c3: "sent c3 = sent c @ [cmd @ [CHR 0x00]]" "socketPath c3 = socketPath c" "conn c3 \<noteq> None"
        using readResponse_sent [of c2] readResponse_socketPath [of c2] readResponse_conn [of c2] c2 rr
        by simp_all
      show ?thesis
        using False sd None wc n2 rr c3
        by (auto simp: Execute_def Let_def split: option.splits)
    qed
  qed
qed


lemma runModes_sent:
  "runModes cx cmds c = (None, c') \<Longrightarrow>
     sent c' = sent c @ map (\<lambda>cmd. cmd @ [CHR 0x00]) cmds \<and> socketPath c' = socketPath c"
proof (induction cmds arbitrary: c)
  case Nil
  then show ?case by simp
next
  case (Cons cmd cmds)
  obtain r e c1 where ex: "Execute cx cmd c = ((r, e), c1)" by (cases "Execute cx cmd c") auto
  with Cons.prems have e: "e = None" and rest: "runModes cx cmds c1 = (None, c')"
    by (auto split: option.splits)
  from Execute_effect [of cx cmd c] ex e
  have "sent c1 = sent c @ [cmd @ [CHR 0x00]]" "socketPath c1 = socketPath c" by simp_all
  with Cons.IH [OF rest] show ?case by simp
qed

lemma runCommands_sent:
  "runCommands uni cx commands c = (None, c') \<Longrightarrow>
     sent c' = sent c @ map (\<lambda>cmd. cmd @ [CHR 0x00])
                          (filter (\<lambda>l. l \<noteq> []) (map (TrimSpace uni) commands))
     \<and> socketPath c' = socketPath c"
proof (induction commands arbitrary: c)
  case Nil
  then show ?case by simp
next
  case (Cons line commands)
  show ?case
  proof (cases "TrimSpace uni line = []")
    case True
    with Cons.prems have "runCommands uni cx commands c = (None, c')" by simp
    from Cons.IH [OF this] True show ?thesis by simp
  next
    case False
    obtain r e c1 where ex: "Execute cx (TrimSpace uni line) c = ((r, e), c1)"
      by (cases "Execute cx (TrimSpace uni line) c") auto
    with Cons.prems False have e: "e = None" and rest: "runCommands uni cx commands c1 = (None, c')"
      by (auto simp: Let_def split: option.splits)
    from Execute_effect [of cx "TrimSpace uni line" c] ex e
    have "sent c1 = sent c @ [TrimSpace uni line @ [CHR 0x00]]" "socketPath c1 = socketPath c"
      by simp_all
    with Cons.IH [OF rest] False show ?thesis by simp
  qed
qed

lemma runCommands_append:
  "runCommands uni cx (xs @ ys) c =
    (case runCommands uni cx xs c of
       (Some e, c') \<Rightarrow> (Some e, c')
     | (None, c') \<Rightarrow> runCommands uni cx ys c')"
proof (induction xs arbitrary: c)
  case Nil
  then show ?case by simp
next
  case (Cons x xs)
  then show ?case by (auto simp: Let_def split: prod.splits option.splits)
qed

lemma exampleConfig_lines:
  "filter (\<lambda>l. l \<noteq> []) (map (TrimSpace uni) (bytes_Split exampleConfig (CHR 0x0A)))
     = [''router bgp 65000'', ''neighbor 10.0.0.1 remote-as 65001'']"
  by (simp add: exampleConfig_def trimRight.simps asciiSpace_def RuneSelf_def)

lemma bytes_Split_not_Nil: "bytes_Split s sep \<noteq> []"
  by (induction s) (auto split: list.splits)

lemma bytes_Split_pieces: "piece \<in> set (bytes_Split s sep) \<Longrightarrow> sep \<notin> set piece"
  by (induction s arbitrary: piece) (auto split: list.splits if_splits)

lemma bytes_Join_Cons:
  "pieces \<noteq> [] \<Longrightarrow> bytes_Join (piece # pieces) sep = piece @ [sep] @ bytes_Join pieces sep"
  by (cases pieces) simp_all

lemma bytes_Join_Split: "bytes_Join (bytes_Split s sep) sep = s"
proof (induction s)
  case Nil
  then show ?case by simp
next
  case (Cons b s)
  show ?case
  proof (cases "b = sep")
    case True
    then show ?thesis using Cons bytes_Split_not_Nil [of s sep] by (simp add: bytes_Join_Cons)
  next
    case False
    obtain piece pieces where sp: "bytes_Split s sep = piece # pieces"
      using bytes_Split_not_Nil [of s sep] by (cases "bytes_Split s sep") auto
    with Cons have "bytes_Join (piece # pieces) sep = s" by simp
    then have "bytes_Join ((b # piece) # pieces) sep = b # s"
      by (cases pieces) simp_all
    then show ?thesis using False sp by simp
  qed
qed

lemma bytes_Split_length: "length (bytes_Split s sep) = Suc (count_list s sep)"
  by (induction s) (auto split: list.splits simp: bytes_Split_not_Nil)

lemma asciiSpace_below: "asciiSpace b \<Longrightarrow> (of_char b :: nat) < RuneSelf"
  by (auto simp: asciiSpace_def RuneSelf_def)

text \<open>The scan from the right, in closed form.\<close>

lemma trimRight_eq:
  "trimRight uni s =
    (let r = rev (dropWhile asciiSpace (rev s))
     in if r = [] then [] else if RuneSelf \<le> of_char (last r) then uni r else r)"
proof (induction s rule: rev_induct)
  case Nil
  then show ?case by (simp add: trimRight.simps)
next
  case (snoc b s)
  show ?case
  proof (cases "asciiSpace b")
    case True
    then have "\<not> RuneSelf \<le> of_char b" using asciiSpace_below [of b] by simp
    with True snoc show ?thesis by (subst trimRight.simps) (simp add: Let_def)
  next
    case False
    then show ?thesis by (subst trimRight.simps) (simp add: Let_def)
  qed
qed

text \<open>\<open>TrimSpace\<close> in closed form: both scans, and the two places where the Unicode-aware
  trim takes over.\<close>

lemma TrimSpace_eq:
  "TrimSpace uni line =
    (let l = dropWhile asciiSpace line
     in if l = [] then []
        else if RuneSelf \<le> of_char (hd l) then uni l
        else (let r = rev (dropWhile asciiSpace (rev l))
              in if RuneSelf \<le> of_char (last r) then uni r else r))"
proof (induction line)
  case Nil
  then show ?case by simp
next
  case (Cons b line)
  show ?case
  proof (cases "asciiSpace b")
    case True
    then have "\<not> RuneSelf \<le> of_char b" using asciiSpace_below [of b] by simp
    with True Cons show ?thesis by simp
  next
    case False
    have ne: "rev (dropWhile asciiSpace (rev (b # line))) \<noteq> []"
      using False by (simp add: dropWhile_append)
    show ?thesis
      using False ne by (simp add: trimRight_eq Let_def)
  qed
qed

lemma TrimSpace_ascii:
  assumes "\<forall>b\<in>set line. (of_char b :: nat) < RuneSelf"
  shows "TrimSpace uni line = rev (dropWhile asciiSpace (rev (dropWhile asciiSpace line)))"
proof -
  let ?l = "dropWhile asciiSpace line"
  let ?r = "rev (dropWhile asciiSpace (rev ?l))"
  have l: "\<forall>b\<in>set ?l. (of_char b :: nat) < RuneSelf"
    using assms by (meson set_dropWhileD)
  then have r: "\<forall>b\<in>set ?r. (of_char b :: nat) < RuneSelf"
    by (metis set_dropWhileD set_rev)
  show ?thesis
  proof (cases "?l = []")
    case True
    show ?thesis
      by (simp only: TrimSpace_eq Let_def True rev.simps dropWhile.simps refl if_True)
  next
    case False
    then have h: "\<not> RuneSelf \<le> of_char (hd ?l)" using l by (simp add: not_le)
    have "\<not> asciiSpace (hd ?l)" using False by (rule hd_dropWhile)
    then have "?r \<noteq> []" using False by (cases ?l) (simp_all add: dropWhile_append)
    then have "last ?r \<in> set ?r" by (rule last_in_set)
    with r have "(of_char (last ?r) :: nat) < RuneSelf" by blast
    then have "\<not> RuneSelf \<le> of_char (last ?r)" by (simp only: not_le)
    with False h show ?thesis by (simp only: TrimSpace_eq Let_def if_False)
  qed
qed

text \<open>So an all-ASCII line comes out with no white space at either end.\<close>

lemma TrimSpace_ascii_ends:
  assumes "\<forall>b\<in>set line. (of_char b :: nat) < RuneSelf" and "TrimSpace uni line \<noteq> []"
  shows "\<not> asciiSpace (hd (TrimSpace uni line)) \<and> \<not> asciiSpace (last (TrimSpace uni line))"
proof -
  let ?l = "dropWhile asciiSpace line"
  let ?d = "dropWhile asciiSpace (rev ?l)"
  have t: "TrimSpace uni line = rev ?d" using assms(1) by (rule TrimSpace_ascii)
  with assms(2) have d: "?d \<noteq> []" by simp
  have l: "?l \<noteq> []"
  proof
    assume "?l = []"
    then have "?d = []" by (simp only: rev.simps dropWhile.simps)
    with d show False by contradiction
  qed
  have "\<not> asciiSpace (hd ?d)" using d by (rule hd_dropWhile)
  then have last: "\<not> asciiSpace (last (rev ?d))" using d by (simp add: last_rev)
  have "\<not> asciiSpace (hd ?l)" using l by (rule hd_dropWhile)
  moreover have "hd (rev ?d) = hd ?l"
  proof -
    obtain x xs where xs: "?l = x # xs" using l by (cases ?l) auto
    have nx: "\<not> asciiSpace x" using \<open>\<not> asciiSpace (hd ?l)\<close> xs by simp
    have "rev ?d = x # rev (dropWhile asciiSpace (rev xs))"
      unfolding xs using nx by (simp add: dropWhile_append)
    then show ?thesis using xs by simp
  qed
  ultimately show ?thesis using last t by simp
qed


lemma paddedConfig_lines:
  "filter (\<lambda>l. l \<noteq> []) (map (TrimSpace uni) (bytes_Split paddedConfig (CHR 0x0A)))
     = [''router bgp 65000'', ''neighbor 10.0.0.1 remote-as 65001'']"
  by (simp add: paddedConfig_def trimRight.simps asciiSpace_def RuneSelf_def)

text \<open>
  Claim C5. When \<open>ApplyConfig\<close> returns no error (every Execute succeeded), the commands it
  has sent, each followed by its NUL byte, are exactly: \<open>enable\<close>, \<open>configure\<close>, then the
  non-empty results of trimming the pieces of the blob between newlines, in blob order,
  then \<open>exit\<close>, \<open>disable\<close>. No empty line is sent. For the blob of the spec's example the
  trimmed non-empty lines are \<open>router bgp 65000\<close> and
  \<open>neighbor 10.0.0.1 remote-as 65001\<close>.

  The pieces are what splitting on newline means: one more piece than the blob has
  newlines, no newline inside a piece, and the pieces joined by newlines are the blob.
  The trimming is what the code does to every line: it drops the bytes tab, line feed,
  vertical tab, form feed, carriage return and blank from the left, then from the right;
  a line that is all white space becomes empty; where the first byte that a scan stops
  at is \<open>0x80\<close> or more, the result is the Unicode-aware trim of what is left at that
  point. For a line of ASCII bytes the result is the line without its leading and trailing
  white space, so what is sent neither begins nor ends with a white-space byte.
\<close>

theorem ApplyConfig_sends:
  assumes "ApplyConfig uni cx config c = (None, c')"
  shows "sent c' = sent c @ map (\<lambda>cmd. cmd @ [CHR 0x00])
           ([''enable'', ''configure'']
            @ filter (\<lambda>l. l \<noteq> []) (map (TrimSpace uni) (bytes_Split config (CHR 0x0A)))
            @ [''exit'', ''disable''])
         \<and> filter (\<lambda>l. l \<noteq> []) (map (TrimSpace uni) (bytes_Split exampleConfig (CHR 0x0A)))
             = [''router bgp 65000'', ''neighbor 10.0.0.1 remote-as 65001'']
         \<and> length (bytes_Split config (CHR 0x0A)) = Suc (count_list config (CHR 0x0A))
         \<and> (\<forall>piece\<in>set (bytes_Split config (CHR 0x0A)). CHR 0x0A \<notin> set piece)
         \<and> bytes_Join (bytes_Split config (CHR 0x0A)) (CHR 0x0A) = config
         \<and> (\<forall>b. asciiSpace b \<longleftrightarrow>
                b = CHR 0x09 \<or> b = CHR 0x0A \<or> b = CHR 0x0B \<or> b = CHR 0x0C \<or> b = CHR 0x0D
                \<or> b = CHR 0x20)
         \<and> TrimSpace uni line =
             (let l = dropWhile asciiSpace line
              in if l = [] then []
                 else if RuneSelf \<le> of_char (hd l) then uni l
                 else (let r = rev (dropWhile asciiSpace (rev l))
                       in if RuneSelf \<le> of_char (last r) then uni r else r))
         \<and> ((\<forall>b\<in>set line. (of_char b :: nat) < RuneSelf) \<longrightarrow>
               TrimSpace uni line = rev (dropWhile asciiSpace (rev (dropWhile asciiSpace line)))
               \<and> (TrimSpace uni line \<noteq> [] \<longrightarrow>
                    \<not> asciiSpace (hd (TrimSpace uni line))
                    \<and> \<not> asciiSpace (last (TrimSpace uni line))))"
proof -
  obtain r1 c1 where m1: "runModes cx [''enable'', ''configure''] c = (r1, c1)"
    by (cases "runModes cx [''enable'', ''configure''] c")
  obtain r2 c2 where m2: "runCommands uni cx (bytes_Split config (CHR 0x0A)) c1 = (r2, c2)"
    by (cases "runCommands uni cx (bytes_Split config (CHR 0x0A)) c1")
  from assms m1 have r1: "r1 = None"
    by (auto simp: ApplyConfig_def Let_def split: option.splits)
  from assms m1 m2 r1 have r2: "r2 = None"
    by (auto simp: ApplyConfig_def Let_def split: option.splits)
  from assms m1 m2 r1 r2 have m3: "runModes cx [''exit'', ''disable''] c2 = (None, c')"
    by (simp add: ApplyConfig_def Let_def)
  from runModes_sent [OF m1 [unfolded r1]] runCommands_sent [OF m2 [unfolded r2]]
    runModes_sent [OF m3]
  have sends: "sent c' = sent c @ map (\<lambda>cmd. cmd @ [CHR 0x00])
           ([''enable'', ''configure'']
            @ filter (\<lambda>l. l \<noteq> []) (map (TrimSpace uni) (bytes_Split config (CHR 0x0A)))
            @ [''exit'', ''disable''])"
    by simp
  have pieces: "\<forall>piece\<in>set (bytes_Split config (CHR 0x0A)). CHR 0x0A \<notin> set piece"
    using bytes_Split_pieces by blast
  have spaces: "\<forall>b. asciiSpace b \<longleftrightarrow>
                b = CHR 0x09 \<or> b = CHR 0x0A \<or> b = CHR 0x0B \<or> b = CHR 0x0C \<or> b = CHR 0x0D
                \<or> b = CHR 0x20"
    by (auto simp: asciiSpace_def)
  have ascii: "(\<forall>b\<in>set line. (of_char b :: nat) < RuneSelf) \<longrightarrow>
               TrimSpace uni line = rev (dropWhile asciiSpace (rev (dropWhile asciiSpace line)))
               \<and> (TrimSpace uni line \<noteq> [] \<longrightarrow>
                    \<not> asciiSpace (hd (TrimSpace uni line))
                    \<and> \<not> asciiSpace (last (TrimSpace uni line)))"
    using TrimSpace_ascii [of line uni] TrimSpace_ascii_ends [of line uni] by blast
  show ?thesis
    by (intro conjI sends exampleConfig_lines bytes_Split_length pieces bytes_Join_Split spaces
        TrimSpace_eq ascii)
qed

theorem ApplyConfig_sends_witness:
  "fst (ApplyConfig (\<lambda>s. s) background exampleConfig
         (daemon [reply [] Success, reply [] Success, reply [] Success, reply [] Success,
                  reply [] Success, reply [] Success])) = None
   \<and> sent (snd (ApplyConfig (\<lambda>s. s) background exampleConfig
         (daemon [reply [] Success, reply [] Success, reply [] Success, reply [] Success,
                  reply [] Success, reply [] Success])))
     = [''enable'' @ [CHR 0x00], ''configure'' @ [CHR 0x00], ''router bgp 65000'' @ [CHR 0x00],
        ''neighbor 10.0.0.1 remote-as 65001'' @ [CHR 0x00], ''exit'' @ [CHR 0x00],
        ''disable'' @ [CHR 0x00]]
   \<and> fst (ApplyConfig (\<lambda>s. s) background paddedConfig
         (daemon [reply [] Success, reply [] Success, reply [] Success, reply [] Success,
                  reply [] Success, reply [] Success])) = None
   \<and> sent (snd (ApplyConfig (\<lambda>s. s) background paddedConfig
         (daemon [reply [] Success, reply [] Success, reply [] Success, reply [] Success,
                  reply [] Success, reply [] Success])))
     = [''enable'' @ [CHR 0x00], ''configure'' @ [CHR 0x00], ''router bgp 65000'' @ [CHR 0x00],
        ''neighbor 10.0.0.1 remote-as 65001'' @ [CHR 0x00], ''exit'' @ [CHR 0x00],
        ''disable'' @ [CHR 0x00]]
   \<and> bytes_Split paddedConfig (CHR 0x0A)
     = [''router bgp 65000 '' @ [CHR 0x09, CHR 0x0D],
        [CHR 0x09] @ '' neighbor 10.0.0.1 remote-as 65001  '',
        ''  '' @ [CHR 0x09, CHR 0x0D], []]
   \<and> TrimSpace (\<lambda>s. s) ([CHR 0x09] @ '' neighbor 10.0.0.1 remote-as 65001  '')
     = ''neighbor 10.0.0.1 remote-as 65001''
   \<and> TrimSpace (\<lambda>s. s) (''  '' @ [CHR 0x09, CHR 0x0D]) = []"
proof -
  let ?c = "daemon [reply [] Success, reply [] Success, reply [] Success, reply [] Success,
                  reply [] Success, reply [] Success]"
  let ?res = "ApplyConfig (\<lambda>s. s) background exampleConfig ?c"
  let ?res2 = "ApplyConfig (\<lambda>s. s) background paddedConfig ?c"
  have ok: "fst ?res = None"
    by (simp add: ApplyConfig_def exampleConfig_def run_defs)
  then have run: "?res = (None, snd ?res)" by (metis prod.collapse)
  have ok2: "fst ?res2 = None"
    by (simp add: ApplyConfig_def paddedConfig_def run_defs)
  then have run2: "?res2 = (None, snd ?res2)" by (metis prod.collapse)
  have start: "sent ?c = []" by (simp add: sent_def daemon_def quiet_def)
  have split: "bytes_Split paddedConfig (CHR 0x0A)
     = [''router bgp 65000 '' @ [CHR 0x09, CHR 0x0D],
        [CHR 0x09] @ '' neighbor 10.0.0.1 remote-as 65001  '',
        ''  '' @ [CHR 0x09, CHR 0x0D], []]"
    by (simp add: paddedConfig_def)
  let ?line = "[CHR 0x09] @ '' neighbor 10.0.0.1 remote-as 65001  ''"
  have a1: "\<forall>b\<in>set ?line. (of_char b :: nat) < RuneSelf" by (simp add: RuneSelf_def)
  have a2: "\<forall>b\<in>set (''  '' @ [CHR 0x09, CHR 0x0D]). (of_char b :: nat) < RuneSelf"
    by (simp add: RuneSelf_def)
  note t1 = ApplyConfig_sends [OF run, where line = ?line]
  note t2 = ApplyConfig_sends [OF run2, where line = "''  '' @ [CHR 0x09, CHR 0x0D]"]
  from t1 have s1: "sent (snd ?res) = sent ?c @ map (\<lambda>cmd. cmd @ [CHR 0x00])
           ([''enable'', ''configure'']
            @ filter (\<lambda>l. l \<noteq> []) (map (TrimSpace (\<lambda>s. s)) (bytes_Split exampleConfig (CHR 0x0A)))
            @ [''exit'', ''disable''])" by (rule conjunct1)
  from t2 have s2: "sent (snd ?res2) = sent ?c @ map (\<lambda>cmd. cmd @ [CHR 0x00])
           ([''enable'', ''configure'']
            @ filter (\<lambda>l. l \<noteq> []) (map (TrimSpace (\<lambda>s. s)) (bytes_Split paddedConfig (CHR 0x0A)))
            @ [''exit'', ''disable''])" by (rule conjunct1)
  from t1 a1 have "TrimSpace (\<lambda>s. s) ?line
      = rev (dropWhile asciiSpace (rev (dropWhile asciiSpace ?line)))" by blast
  then have l1: "TrimSpace (\<lambda>s. s) ?line = ''neighbor 10.0.0.1 remote-as 65001''"
    by (simp add: asciiSpace_def)
  from t2 a2 have "TrimSpace (\<lambda>s. s) (''  '' @ [CHR 0x09, CHR 0x0D])
      = rev (dropWhile asciiSpace (rev (dropWhile asciiSpace (''  '' @ [CHR 0x09, CHR 0x0D]))))"
    by blast
  then have l2: "TrimSpace (\<lambda>s. s) (''  '' @ [CHR 0x09, CHR 0x0D]) = []"
    by (simp add: asciiSpace_def)
  have e1: "sent (snd ?res) = [''enable'' @ [CHR 0x00], ''configure'' @ [CHR 0x00],
        ''router bgp 65000'' @ [CHR 0x00],
        ''neighbor 10.0.0.1 remote-as 65001'' @ [CHR 0x00], ''exit'' @ [CHR 0x00],
        ''disable'' @ [CHR 0x00]]"
    unfolding s1 start exampleConfig_lines by simp
  have e2: "sent (snd ?res2) = [''enable'' @ [CHR 0x00], ''configure'' @ [CHR 0x00],
        ''router bgp 65000'' @ [CHR 0x00],
        ''neighbor 10.0.0.1 remote-as 65001'' @ [CHR 0x00], ''exit'' @ [CHR 0x00],
        ''disable'' @ [CHR 0x00]]"
    unfolding s2 start paddedConfig_lines by simp
  from ok e1 ok2 e2 split l1 l2 show ?thesis by (intro conjI)
qed

text \<open>
  Claim C6. Let \<open>enable\<close> and \<open>configure\<close> have succeeded, let the lines of the blob before
  some line have run without error, and let the Execute of that line, which is not empty
  after trimming, fail with error \<open>e\<close>. Then \<open>ApplyConfig\<close> returns the error that names
  that command and wraps \<open>e\<close>, and it leaves the Connection exactly as the failing
  Execute left it: nothing is executed after it. What has been sent is \<open>enable\<close>,
  \<open>configure\<close>, the earlier non-empty lines and at most the failing command itself; no
  later line, no \<open>exit\<close>, no \<open>disable\<close>.
\<close>

theorem ApplyConfig_stops_at_failure:
  assumes "runModes cx [''enable'', ''configure''] c = (None, c1)"
    and "bytes_Split config (CHR 0x0A) = before @ line # rest"
    and "runCommands uni cx before c1 = (None, c2)"
    and "TrimSpace uni line \<noteq> []"
    and "Execute cx (TrimSpace uni line) c2 = ((r, Some e), c3)"
  shows "ApplyConfig uni cx config c =
      (Some (Errorf (''exec command '' @ [CHR 0x27] @ ''%s'' @ [CHR 0x27] @
                       '' on frr socket %s while applying config: %w'')
               [Str (TrimSpace uni line), Str (socketPath c), Err e]), c3)
    \<and> (sent c3 = sent c @ map (\<lambda>cmd. cmd @ [CHR 0x00])
          ([''enable'', ''configure''] @ filter (\<lambda>l. l \<noteq> []) (map (TrimSpace uni) before))
       \<or> sent c3 = sent c @ map (\<lambda>cmd. cmd @ [CHR 0x00])
          ([''enable'', ''configure''] @ filter (\<lambda>l. l \<noteq> []) (map (TrimSpace uni) before)
           @ [TrimSpace uni line]))"
proof -
  note s1 = runModes_sent [OF assms(1)]
  note s2 = runCommands_sent [OF assms(3)]
  have path: "socketPath c2 = socketPath c" using s1 s2 by simp
  have fail: "runCommands uni cx (line # rest) c2 =
      (Some (Errorf (''exec command '' @ [CHR 0x27] @ ''%s'' @ [CHR 0x27] @
                       '' on frr socket %s while applying config: %w'')
               [Str (TrimSpace uni line), Str (socketPath c), Err e]), c3)"
    using assms(4,5) path by (simp add: Let_def)
  have "runCommands uni cx (bytes_Split config (CHR 0x0A)) c1 =
      (Some (Errorf (''exec command '' @ [CHR 0x27] @ ''%s'' @ [CHR 0x27] @
                       '' on frr socket %s while applying config: %w'')
               [Str (TrimSpace uni line), Str (socketPath c), Err e]), c3)"
    unfolding assms(2) runCommands_append using assms(3) fail by simp
  then have result: "ApplyConfig uni cx config c =
      (Some (Errorf (''exec command '' @ [CHR 0x27] @ ''%s'' @ [CHR 0x27] @
                       '' on frr socket %s while applying config: %w'')
               [Str (TrimSpace uni line), Str (socketPath c), Err e]), c3)"
    using assms(1) by (simp add: ApplyConfig_def Let_def)
  from Execute_effect [of cx "TrimSpace uni line" c2] assms(5)
  have "sent c3 = sent c2 \<or> sent c3 = sent c2 @ [TrimSpace uni line @ [CHR 0x00]]" by simp
  with s1 s2 result show ?thesis by auto
qed

theorem ApplyConfig_stops_at_failure_witness:
  "ApplyConfig (\<lambda>s. s) background brokenConfig
     (daemon [reply [] Success, reply [] Success, reply [] Success,
              reply ''% Unknown command.'' ErrNoMatch, reply [] Success, reply [] Success,
              reply [] Success])
   = (Some (Errorf (''exec command '' @ [CHR 0x27] @ ''%s'' @ [CHR 0x27] @
                       '' on frr socket %s while applying config: %w'')
             [Str ''bogus'', Str ''/run/frr/bgpd.vty'',
              Err (Errorf ''%w, FRR command %q on socket %q: %s''
                    [Err (New ''not acceptable status code''), Str ''bogus'',
                     Str ''/run/frr/bgpd.vty'', Str ''CMD_ERR_NO_MATCH''])]),
      \<lparr>socketPath = ''/run/frr/bgpd.vty'',
       conn = Some \<lparr>inbox = [reply [] Success, reply [] Success, reply [] Success],
                    deadlineErrs = [], writeErrs = [], closeErr = None,
                    deadline = Some 1000000000,
                    written = [''enable'' @ [CHR 0x00], ''configure'' @ [CHR 0x00],
                               ''router bgp 65000'' @ [CHR 0x00], ''bogus'' @ [CHR 0x00]],
                    readCalls = 4\<rparr>\<rparr>)"
proof -
  let ?c = "daemon [reply [] Success, reply [] Success, reply [] Success,
              reply ''% Unknown command.'' ErrNoMatch, reply [] Success, reply [] Success,
              reply [] Success]"
  let ?c1 = "snd (runModes background [''enable'', ''configure''] ?c)"
  let ?c2 = "snd (runCommands (\<lambda>s. s) background [''router bgp 65000''] ?c1)"
  let ?c3 = "snd (Execute background ''bogus'' ?c2)"
  let ?e = "Errorf ''%w, FRR command %q on socket %q: %s''
                    [Err (New ''not acceptable status code''), Str ''bogus'',
                     Str ''/run/frr/bgpd.vty'', Str ''CMD_ERR_NO_MATCH'']"
  have h1: "runModes background [''enable'', ''configure''] ?c = (None, ?c1)"
    by (simp add: run_defs)
  have h2: "bytes_Split brokenConfig (CHR 0x0A)
      = [''router bgp 65000''] @ '' bogus'' # ['' neighbor 10.0.0.1 remote-as 65001'', []]"
    by (simp add: brokenConfig_def)
  have h3: "runCommands (\<lambda>s. s) background [''router bgp 65000''] ?c1 = (None, ?c2)"
    by (simp add: run_defs)
  have t: "TrimSpace (\<lambda>s. s) '' bogus'' = ''bogus''"
    by (simp add: run_defs)
  have h4: "TrimSpace (\<lambda>s. s) '' bogus'' \<noteq> []" unfolding t by simp
  have h5: "Execute background (TrimSpace (\<lambda>s. s) '' bogus'') ?c2
      = ((''% Unknown command.'', Some ?e), ?c3)"
    unfolding t by (simp add: run_defs String_def ErrNotAcceptableStatusCode_def)
  have c3: "?c3 = \<lparr>socketPath = ''/run/frr/bgpd.vty'',
       conn = Some \<lparr>inbox = [reply [] Success, reply [] Success, reply [] Success],
                    deadlineErrs = [], writeErrs = [], closeErr = None,
                    deadline = Some 1000000000,
                    written = [''enable'' @ [CHR 0x00], ''configure'' @ [CHR 0x00],
                               ''router bgp 65000'' @ [CHR 0x00], ''bogus'' @ [CHR 0x00]],
                    readCalls = 4\<rparr>\<rparr>"
    by (simp add: run_defs)
  have p: "socketPath ?c = ''/run/frr/bgpd.vty''" by (simp add: daemon_def)
  from ApplyConfig_stops_at_failure [OF h1 h2 h3 h4 h5, THEN conjunct1]
  show ?thesis unfolding t c3 p .
qed

section \<open>Sockets: routing, Connect and Close\<close>

lemma load_store: "load (store r c h) r' = (if r' = r then c else load h r')"
  by (simp add: load_def store_def)

lemma NewSockets_refs:
  assumes "s = fst (NewSockets pathJoin configPath frrRunDir h0)"
  shows "allConnections s = [bgpConn s, bfdConn s, mgmtConn s, zebraConn s]"
    and "distinct (allConnections s)"
  using assms by (simp_all add: NewSockets_def alloc_def)

lemma NewSockets_paths:
  assumes "NewSockets pathJoin configPath frrRunDir h0 = (s, h)"
  shows "map (\<lambda>r. load h r) (allConnections s) =
    map (\<lambda>name. NewConnection (pathJoin frrRunDir name))
      [bgpSocketName, bfdSocketName, mgmtSocketName, zebraSocketName]"
  using assms by (auto simp: NewSockets_def alloc_def load_def)

text \<open>
  Claim C4. For every context and command, \<open>ExecuteBFD\<close> is \<open>ExecuteMgmt\<close>: it runs
  \<open>Execute\<close> on the Connection that \<open>mgmtConn\<close> points to, returns that call's result and
  stores that Connection's new state; the Connection that \<open>bfdConn\<close> points to, a
  different object, is left as it was.
\<close>

theorem ExecuteBFD_uses_mgmtConn:
  "ExecuteBFD cx cmd s h = ExecuteMgmt cx cmd s h
   \<and> fst (ExecuteBFD cx cmd s h) = fst (Execute cx cmd (load h (mgmtConn s)))
   \<and> load (snd (ExecuteBFD cx cmd s h)) (mgmtConn s) = snd (Execute cx cmd (load h (mgmtConn s)))
   \<and> (bfdConn s \<noteq> mgmtConn s \<longrightarrow>
        load (snd (ExecuteBFD cx cmd s h)) (bfdConn s) = load h (bfdConn s))"
  by (simp add: ExecuteBFD_def ExecuteMgmt_def execute_def load_store split: prod.splits)

theorem ExecuteBFD_uses_mgmtConn_witness:
  "bfdConn frr \<noteq> mgmtConn frr
   \<and> socketPath (load frrUp (mgmtConn frr)) = ''/run/frr/mgmtd.vty''
   \<and> socketPath (load frrUp (bfdConn frr)) = ''/run/frr/bfdd.vty''
   \<and> sent (load frrUp (mgmtConn frr)) = [] \<and> sent (load frrUp (bfdConn frr)) = []
   \<and> fst (ExecuteBFD background ''show bfd peers'' frr frrUp) = (''ok'', None)
   \<and> sent (load (snd (ExecuteBFD background ''show bfd peers'' frr frrUp)) (mgmtConn frr))
       = [''show bfd peers'' @ [CHR 0x00]]
   \<and> sent (load (snd (ExecuteBFD background ''show bfd peers'' frr frrUp)) (bfdConn frr)) = []"
proof -
  have ne: "bfdConn frr \<noteq> mgmtConn frr" by (simp add: frr_defs)
  have up: "load frrUp (mgmtConn frr)
      = \<lparr>socketPath = ''/run/frr/mgmtd.vty'', conn = Some (quiet [reply ''ok'' Success])\<rparr>"
    "load frrUp (bfdConn frr)
      = \<lparr>socketPath = ''/run/frr/bfdd.vty'', conn = Some (quiet [reply ''ok'' Success])\<rparr>"
    by (simp_all add: frrUp_def Sockets_Connect_def Connect_def DialContext_def allUp_def
        errors_Join_def List.map_filter_simps frr_defs)
  note t = ExecuteBFD_uses_mgmtConn [of background "''show bfd peers''" frr frrUp]
  from t have r: "fst (ExecuteBFD background ''show bfd peers'' frr frrUp)
      = fst (Execute background ''show bfd peers'' (load frrUp (mgmtConn frr)))" by blast
  from t have m: "load (snd (ExecuteBFD background ''show bfd peers'' frr frrUp)) (mgmtConn frr)
      = snd (Execute background ''show bfd peers'' (load frrUp (mgmtConn frr)))" by blast
  from t ne have b: "load (snd (ExecuteBFD background ''show bfd peers'' frr frrUp)) (bfdConn frr)
      = load frrUp (bfdConn frr)" by blast
  show ?thesis
    unfolding r m b up using ne by (simp add: run_defs sent_def)
qed










section \<open>DumpRunningConfig\<close>

lemma ShowRunningConfig_socketPath:
  "socketPath (snd (ShowRunningConfig cx c)) = socketPath c"
proof -
  have e: "\<And>cmd c. socketPath (snd (Execute cx cmd c)) = socketPath c"
    using Execute_effect by blast
  obtain r1 e1 c1 where x1: "Execute cx ''enable'' c = ((r1, e1), c1)"
    by (cases "Execute cx ''enable'' c") auto
  obtain r2 e2 c2 where x2: "Execute cx ''do write terminal'' c1 = ((r2, e2), c2)"
    by (cases "Execute cx ''do write terminal'' c1") auto
  obtain r3 e3 c3 where x3: "Execute cx ''disable'' c2 = ((r3, e3), c3)"
    by (cases "Execute cx ''disable'' c2") auto
  have "socketPath c1 = socketPath c" using e [of "''enable''" c] x1 by simp
  moreover have "socketPath c2 = socketPath c1" using e [of "''do write terminal''" c1] x2 by simp
  moreover have "socketPath c3 = socketPath c2" using e [of "''disable''" c2] x3 by simp
  ultimately show ?thesis
    using x1 x2 x3 by (simp add: ShowRunningConfig_def split: option.splits)
qed

lemma dumpLoop_ok:
  "distinct rs \<Longrightarrow> \<forall>r\<in>set rs. \<not> showFails cx h r \<Longrightarrow>
     fst (dumpLoop cx rs buf h) = Inr (buf @ concat (map (dumpSection cx h) rs))"
proof (induction rs arbitrary: buf h)
  case Nil
  then show ?case by simp
next
  case (Cons r rs)
  obtain resp eo c' where sh: "ShowRunningConfig cx (load h r) = ((resp, eo), c')"
    by (cases "ShowRunningConfig cx (load h r)") auto
  have eo: "eo = None" using Cons.prems(2) sh by (simp add: showFails_def)
  have path: "socketPath c' = socketPath (load h r)"
    using ShowRunningConfig_socketPath [of cx "load h r"] sh by simp
  have same: "\<And>r'. r' \<in> set rs \<Longrightarrow> load (store r c' h) r' = load h r'"
    using Cons.prems(1) by (auto simp: load_store)
  have ok: "\<forall>r'\<in>set rs. \<not> showFails cx (store r c' h) r'"
    using Cons.prems(2) same by (simp add: showFails_def)
  have secs: "map (dumpSection cx (store r c' h)) rs = map (dumpSection cx h) rs"
    using same by (simp add: dumpSection_def)
  from Cons.prems(1) have "distinct rs" by simp
  from Cons.IH [OF this ok]
  have ih: "\<And>buf. fst (dumpLoop cx rs buf (store r c' h))
      = Inr (buf @ concat (map (dumpSection cx h) rs))"
    unfolding secs .
  have step: "dumpLoop cx (r # rs) buf h = dumpLoop cx rs (buf @ dumpSection cx h r) (store r c' h)"
    using sh eo path by (simp add: dumpSection_def Let_def)
  show ?case unfolding step ih by simp
qed

lemma dumpLoop_fail:
  "distinct rs \<Longrightarrow> \<exists>r\<in>set rs. showFails cx h r \<Longrightarrow> \<exists>e. fst (dumpLoop cx rs buf h) = Inl e"
proof (induction rs arbitrary: buf h)
  case Nil
  then show ?case by simp
next
  case (Cons r rs)
  obtain resp eo c' where sh: "ShowRunningConfig cx (load h r) = ((resp, eo), c')"
    by (cases "ShowRunningConfig cx (load h r)") auto
  show ?case
  proof (cases eo)
    case (Some e)
    then show ?thesis using sh by simp
  next
    case None
    then have "\<not> showFails cx h r" using sh by (simp add: showFails_def)
    with Cons.prems(2) obtain r' where r': "r' \<in> set rs" "showFails cx h r'" by auto
    have same: "\<And>r'. r' \<in> set rs \<Longrightarrow> load (store r c' h) r' = load h r'"
      using Cons.prems(1) by (auto simp: load_store)
    from r' same have "\<exists>r'\<in>set rs. showFails cx (store r c' h) r'"
      by (auto simp: showFails_def)
    moreover from Cons.prems(1) have "distinct rs" by simp
    ultimately have "\<exists>e. fst (dumpLoop cx rs (buf @ ''! '' @ socketPath c' @ [CHR 0x0A] @ resp)
        (store r c' h)) = Inl e"
      by (rule Cons.IH [rotated])
    then show ?thesis using sh None by (simp add: Let_def)
  qed
qed

lemma atomicWrite_ok:
  assumes "writeFault fs (path @ ''.tmp'') = None"
    and "renameFault fs (path @ ''.tmp'') path = None"
  shows "fst (atomicWrite path data mode fs) = None"
    and "map_option content (files (snd (atomicWrite path data mode fs)) path) = Some data"
    and "files (snd (atomicWrite path data mode fs)) (path @ ''.tmp'') = None"
    and "snd (atomicWrite path data mode fs)
          = snd (os_Rename (path @ ''.tmp'') path (snd (os_WriteFile (path @ ''.tmp'') data mode fs)))"
  using assms
  by (simp_all add: atomicWrite_def os_WriteFile_def os_Rename_def putFile_def Let_def)

lemma atomicWrite_keeps:
  "fst (atomicWrite path data mode fs) \<noteq> None \<Longrightarrow>
     files (snd (atomicWrite path data mode fs)) path = files fs path"
  by (auto simp: atomicWrite_def os_WriteFile_def os_Rename_def putFile_def Let_def
      split: option.splits prod.splits if_splits)

lemma atomicWrite_done:
  "fst (atomicWrite path data mode fs) = None \<Longrightarrow>
     map_option content (files (snd (atomicWrite path data mode fs)) path) = Some data"
  by (auto simp: atomicWrite_def os_WriteFile_def os_Rename_def putFile_def Let_def
      split: option.splits prod.splits if_splits)

text \<open>
  Claim C2. For a \<open>Sockets\<close> made by \<open>NewSockets\<close>, whatever the four daemons answer:
  if \<open>ShowRunningConfig\<close> succeeds on all four Connections and neither the write of
  \<open>dstFile\<close> with \<open>.tmp\<close> appended nor the rename fails, \<open>DumpRunningConfig\<close> returns nil and the
  destination file then holds, in the order bgp, bfd, mgmt, zebra, the comment line
  made of \<open>! \<close>, the socket path and a newline for each Connection, followed by its
  \<open>ShowRunningConfig\<close> output,
  the file system being the one reached by writing that content to \<open>dstFile\<close> with \<open>.tmp\<close> appended
  and renaming it to \<open>dstFile\<close>; if \<open>ShowRunningConfig\<close> fails on any of the four, an
  error is returned and the file system is unchanged. Moreover, whenever an error is
  returned the destination file is as it was, and whenever nil is returned it holds the
  whole content: it is never partly written.
\<close>

theorem DumpRunningConfig_all_or_nothing:
  assumes "s = fst (NewSockets pathJoin configPath frrRunDir h0)"
  shows
    "(\<not> showFails cx h (bgpConn s) \<and> \<not> showFails cx h (bfdConn s)
        \<and> \<not> showFails cx h (mgmtConn s) \<and> \<not> showFails cx h (zebraConn s)
        \<and> writeFault fs (dstFile @ ''.tmp'') = None
        \<and> renameFault fs (dstFile @ ''.tmp'') dstFile = None
      \<longrightarrow> fst (DumpRunningConfig cx dstFile mode s h fs) = None
          \<and> map_option content (files (snd (snd (DumpRunningConfig cx dstFile mode s h fs))) dstFile)
              = Some (dumpSection cx h (bgpConn s) @ dumpSection cx h (bfdConn s)
                      @ dumpSection cx h (mgmtConn s) @ dumpSection cx h (zebraConn s))
          \<and> snd (snd (DumpRunningConfig cx dstFile mode s h fs))
              = snd (os_Rename (dstFile @ ''.tmp'') dstFile
                  (snd (os_WriteFile (dstFile @ ''.tmp'')
                     (dumpSection cx h (bgpConn s) @ dumpSection cx h (bfdConn s)
                      @ dumpSection cx h (mgmtConn s) @ dumpSection cx h (zebraConn s))
                     mode fs))))
   \<and> (showFails cx h (bgpConn s) \<or> showFails cx h (bfdConn s)
        \<or> showFails cx h (mgmtConn s) \<or> showFails cx h (zebraConn s)
      \<longrightarrow> fst (DumpRunningConfig cx dstFile mode s h fs) \<noteq> None
          \<and> snd (snd (DumpRunningConfig cx dstFile mode s h fs)) = fs)
   \<and> (fst (DumpRunningConfig cx dstFile mode s h fs) \<noteq> None
      \<longrightarrow> files (snd (snd (DumpRunningConfig cx dstFile mode s h fs))) dstFile = files fs dstFile)
   \<and> (fst (DumpRunningConfig cx dstFile mode s h fs) = None
      \<longrightarrow> map_option content (files (snd (snd (DumpRunningConfig cx dstFile mode s h fs))) dstFile)
              = Some (dumpSection cx h (bgpConn s) @ dumpSection cx h (bfdConn s)
                      @ dumpSection cx h (mgmtConn s) @ dumpSection cx h (zebraConn s)))"
proof -
  let ?rs = "allConnections s"
  let ?all = "dumpSection cx h (bgpConn s) @ dumpSection cx h (bfdConn s)
                      @ dumpSection cx h (mgmtConn s) @ dumpSection cx h (zebraConn s)"
  have refs: "?rs = [bgpConn s, bfdConn s, mgmtConn s, zebraConn s]" and dist: "distinct ?rs"
    using NewSockets_refs [OF assms] by simp_all
  obtain out h' where dl: "dumpLoop cx ?rs [] h = (out, h')" by (cases "dumpLoop cx ?rs [] h")
  have good: "fst (DumpRunningConfig cx dstFile mode s h fs) = None
          \<and> map_option content (files (snd (snd (DumpRunningConfig cx dstFile mode s h fs))) dstFile)
              = Some ?all
          \<and> snd (snd (DumpRunningConfig cx dstFile mode s h fs))
              = snd (os_Rename (dstFile @ ''.tmp'') dstFile
                  (snd (os_WriteFile (dstFile @ ''.tmp'') ?all mode fs)))"
    if ok: "\<not> showFails cx h (bgpConn s)" "\<not> showFails cx h (bfdConn s)"
      "\<not> showFails cx h (mgmtConn s)" "\<not> showFails cx h (zebraConn s)"
      and wf: "writeFault fs (dstFile @ ''.tmp'') = None"
      and rf: "renameFault fs (dstFile @ ''.tmp'') dstFile = None"
  proof -
    have "\<forall>r\<in>set ?rs. \<not> showFails cx h r" using ok by (simp add: refs)
    from dumpLoop_ok [OF dist this, of "[]"] dl have out: "out = Inr ?all" by (simp add: refs)
    obtain eo fs' where aw: "atomicWrite dstFile ?all mode fs = (eo, fs')"
      by (cases "atomicWrite dstFile ?all mode fs")
    from atomicWrite_ok [OF wf rf, of ?all mode] aw
    have "eo = None" "map_option content (files fs' dstFile) = Some ?all"
      "fs' = snd (os_Rename (dstFile @ ''.tmp'') dstFile
                  (snd (os_WriteFile (dstFile @ ''.tmp'') ?all mode fs)))"
      by simp_all
    then show ?thesis using dl out aw by (simp add: DumpRunningConfig_def)
  qed
  have bad: "fst (DumpRunningConfig cx dstFile mode s h fs) \<noteq> None
          \<and> snd (snd (DumpRunningConfig cx dstFile mode s h fs)) = fs"
    if "showFails cx h (bgpConn s) \<or> showFails cx h (bfdConn s)
        \<or> showFails cx h (mgmtConn s) \<or> showFails cx h (zebraConn s)"
  proof -
    from that have "\<exists>r\<in>set ?rs. showFails cx h r" by (auto simp: refs)
    from dumpLoop_fail [OF dist this, of "[]"] dl obtain e where "out = Inl e" by auto
    then show ?thesis using dl by (simp add: DumpRunningConfig_def)
  qed
  have keep: "files (snd (snd (DumpRunningConfig cx dstFile mode s h fs))) dstFile = files fs dstFile"
    if err: "fst (DumpRunningConfig cx dstFile mode s h fs) \<noteq> None"
  proof (cases out)
    case (Inl e)
    then show ?thesis using dl by (simp add: DumpRunningConfig_def)
  next
    case (Inr cfg)
    obtain eo fs' where aw: "atomicWrite dstFile cfg mode fs = (eo, fs')"
      by (cases "atomicWrite dstFile cfg mode fs")
    with err dl Inr have "eo \<noteq> None"
      by (auto simp: DumpRunningConfig_def split: option.splits)
    with atomicWrite_keeps [of dstFile cfg mode fs] aw have "files fs' dstFile = files fs dstFile"
      by simp
    then show ?thesis using dl Inr aw by (simp add: DumpRunningConfig_def split: option.splits)
  qed
  have full: "map_option content (files (snd (snd (DumpRunningConfig cx dstFile mode s h fs))) dstFile)
      = Some ?all"
    if nil: "fst (DumpRunningConfig cx dstFile mode s h fs) = None"
  proof -
    from nil bad have "\<forall>r\<in>set ?rs. \<not> showFails cx h r" by (auto simp: refs)
    from dumpLoop_ok [OF dist this, of "[]"] dl have out: "out = Inr ?all" by (simp add: refs)
    obtain eo fs' where aw: "atomicWrite dstFile ?all mode fs = (eo, fs')"
      by (cases "atomicWrite dstFile ?all mode fs")
    with nil dl out have "eo = None"
      by (auto simp: DumpRunningConfig_def split: option.splits)
    with atomicWrite_done [of dstFile ?all mode fs] aw
    have "map_option content (files fs' dstFile) = Some ?all" by simp
    then show ?thesis using dl out aw by (simp add: DumpRunningConfig_def split: option.splits)
  qed
  from good bad keep full show ?thesis by blast
qed


theorem DumpRunningConfig_all_or_nothing_witness:
  "fst (DumpRunningConfig background ''/etc/frr/frr.conf'' DefaultFRRConfigPerm frr frrServing disk)
     = None
   \<and> map_option content
        (files (snd (snd (DumpRunningConfig background ''/etc/frr/frr.conf'' DefaultFRRConfigPerm
                            frr frrServing disk))) ''/etc/frr/frr.conf'')
     = Some (''! /run/frr/bgpd.vty'' @ [CHR 0x0A] @ ''hostname /run/frr/bgpd.vty'' @ [CHR 0x0A]
           @ ''! /run/frr/bfdd.vty'' @ [CHR 0x0A] @ ''hostname /run/frr/bfdd.vty'' @ [CHR 0x0A]
           @ ''! /run/frr/mgmtd.vty'' @ [CHR 0x0A] @ ''hostname /run/frr/mgmtd.vty'' @ [CHR 0x0A]
           @ ''! /run/frr/zebra.vty'' @ [CHR 0x0A] @ ''hostname /run/frr/zebra.vty'' @ [CHR 0x0A])
   \<and> fst (DumpRunningConfig background ''/etc/frr/frr.conf'' DefaultFRRConfigPerm frr frrHeap disk)
     \<noteq> None
   \<and> snd (snd (DumpRunningConfig background ''/etc/frr/frr.conf'' DefaultFRRConfigPerm
                  frr frrHeap disk)) = disk"
proof -
  let ?answers = "\<lambda>path. quiet [reply [] Success, reply (''hostname '' @ path @ [CHR 0x0A]) Success,
                                 reply [] Success]"
  have up: "load frrServing (bgpConn frr)
      = \<lparr>socketPath = ''/run/frr/bgpd.vty'', conn = Some (?answers ''/run/frr/bgpd.vty'')\<rparr>"
    "load frrServing (bfdConn frr)
      = \<lparr>socketPath = ''/run/frr/bfdd.vty'', conn = Some (?answers ''/run/frr/bfdd.vty'')\<rparr>"
    "load frrServing (mgmtConn frr)
      = \<lparr>socketPath = ''/run/frr/mgmtd.vty'', conn = Some (?answers ''/run/frr/mgmtd.vty'')\<rparr>"
    "load frrServing (zebraConn frr)
      = \<lparr>socketPath = ''/run/frr/zebra.vty'', conn = Some (?answers ''/run/frr/zebra.vty'')\<rparr>"
    by (simp_all add: frrServing_def Sockets_Connect_def Connect_def DialContext_def serving_def
        errors_Join_def List.map_filter_simps frr_defs)
  have ok: "\<not> showFails background frrServing (bgpConn frr)"
    "\<not> showFails background frrServing (bfdConn frr)"
    "\<not> showFails background frrServing (mgmtConn frr)"
    "\<not> showFails background frrServing (zebraConn frr)"
    unfolding showFails_def up by (simp_all add: ShowRunningConfig_def run_defs)
  have secs: "dumpSection background frrServing (bgpConn frr)
      = ''! /run/frr/bgpd.vty'' @ [CHR 0x0A] @ ''hostname /run/frr/bgpd.vty'' @ [CHR 0x0A]"
    "dumpSection background frrServing (bfdConn frr)
      = ''! /run/frr/bfdd.vty'' @ [CHR 0x0A] @ ''hostname /run/frr/bfdd.vty'' @ [CHR 0x0A]"
    "dumpSection background frrServing (mgmtConn frr)
      = ''! /run/frr/mgmtd.vty'' @ [CHR 0x0A] @ ''hostname /run/frr/mgmtd.vty'' @ [CHR 0x0A]"
    "dumpSection background frrServing (zebraConn frr)
      = ''! /run/frr/zebra.vty'' @ [CHR 0x0A] @ ''hostname /run/frr/zebra.vty'' @ [CHR 0x0A]"
    unfolding dumpSection_def up by (simp_all add: ShowRunningConfig_def run_defs)
  have faults: "writeFault disk (''/etc/frr/frr.conf'' @ ''.tmp'') = None"
    "renameFault disk (''/etc/frr/frr.conf'' @ ''.tmp'') ''/etc/frr/frr.conf'' = None"
    by (simp_all add: disk_def)
  have down: "showFails background frrHeap (bgpConn frr)"
    by (simp add: showFails_def ShowRunningConfig_def Execute_def frr_defs)
  note written = DumpRunningConfig_all_or_nothing [OF frr_def,
      where cx = background and h = frrServing and fs = disk
        and dstFile = "''/etc/frr/frr.conf''" and mode = DefaultFRRConfigPerm,
      THEN conjunct1, rule_format, OF conjI [OF ok(1) conjI [OF ok(2) conjI [OF ok(3)
        conjI [OF ok(4) conjI [OF faults]]]]]]
  note untouched = DumpRunningConfig_all_or_nothing [OF frr_def,
      where cx = background and h = frrHeap and fs = disk
        and dstFile = "''/etc/frr/frr.conf''" and mode = DefaultFRRConfigPerm,
      THEN conjunct2, THEN conjunct1, rule_format, OF disjI1 [OF down]]
  from written [THEN conjunct1] written [THEN conjunct2, THEN conjunct1] untouched
  show ?thesis unfolding secs by simp
qed

end
